theory Spec2Isabelle
  imports Complex_Main "HOL-Library.Word"
begin

unbundle bit_operations_syntax

section \<open>Data model\<close>

text \<open>
  A \<^verbatim>\<open>Uint8Array\<close> is a list of 8-bit words. A JavaScript string is a list of UTF-16
  code units, which is what \<^verbatim>\<open>length\<close>, \<^verbatim>\<open>slice\<close>, \<^verbatim>\<open>substring\<close> and \<^verbatim>\<open>startsWith\<close>
  count and compare. A \<^verbatim>\<open>bigint\<close> is an \<open>int\<close>.
\<close>

type_synonym byte = "8 word"
type_synonym bytes = "byte list"
type_synonym code_unit = "16 word"
type_synonym jsstring = "code_unit list"

text \<open>String literals of the source, written with ASCII characters.\<close>

definition lit :: "string \<Rightarrow> jsstring" where
  "lit s = map (\<lambda>c. of_nat (of_char c)) s"

text \<open>\<^verbatim>\<open>types/index.ts\<close>: the error codes, and the errors a call can raise.\<close>

datatype ErrorCode =
    NetworkError | RpcError | Timeout
  | InvalidAddress | InvalidSignature | InvalidTransaction | InvalidMnemonic
  | InsufficientBalance | InvalidNonce | AccountNotFound
  | SigningError | KeyGenerationError

datatype error =
    TesseraError ErrorCode
  | SyntaxError
  | RangeError

datatype TxType = Transfer | Stake | Unstake | SubmitProposal | Vote

text \<open>The numeric value of each member of \<^verbatim>\<open>enum TxType\<close>.\<close>

fun TxType_ordinal :: "TxType \<Rightarrow> nat" where
  "TxType_ordinal Transfer = 0"
| "TxType_ordinal Stake = 1"
| "TxType_ordinal Unstake = 2"
| "TxType_ordinal SubmitProposal = 3"
| "TxType_ordinal Vote = 4"

text \<open>
  \<^verbatim>\<open>interface Transaction\<close>. The record is parametrised by what the \<^verbatim>\<open>txType\<close> field
  holds: in a \<open>Transaction\<close> it is a member of the enum, as the interface declares. The
  object that \<^verbatim>\<open>jsonToTransaction\<close> returns gets the field from an untyped table lookup
  and is modelled with a wider field type, given with that function.
\<close>

record 'k TransactionOf =
  txType :: 'k
  chainId :: jsstring
  tx_from :: bytes
  tx_to :: bytes
  amount :: int
  payload :: "bytes option"
  nonce :: int
  timestamp :: int
  signature :: bytes

type_synonym Transaction = "TxType TransactionOf"

text \<open>\<^verbatim>\<open>utils/constants.ts\<close>\<close>

definition TOKEN_DECIMALS :: nat where "TOKEN_DECIMALS = 6"
definition BASE_FEE :: int where "BASE_FEE = 1000"
definition FEE_PER_KB_PAYLOAD :: int where "FEE_PER_KB_PAYLOAD = 100"
definition STAKING_FEE :: int where "STAKING_FEE = 10000"
definition MAX_PAYLOAD_SIZE :: nat where "MAX_PAYLOAD_SIZE = 10 * 1024"

section \<open>Platform operations used by the codec\<close>

text \<open>
  \<^verbatim>\<open>DataView.setBigUint64(0, value, true)\<close> and \<^verbatim>\<open>DataView.setUint32(0, value, false)\<close>
  first reduce the value modulo \<open>2 ^ 64\<close> (respectively \<open>2 ^ 32\<close>) and then store its
  bytes, least significant first when the last argument is true, most significant first
  when it is false.
\<close>

fun le_bytes :: "nat \<Rightarrow> int \<Rightarrow> bytes" where
  "le_bytes 0 v = []"
| "le_bytes (Suc n) v = word_of_int (v mod 256) # le_bytes n (v div 256)"

definition setBigUint64_le :: "int \<Rightarrow> bytes" where
  "setBigUint64_le v = le_bytes 8 (v mod 2 ^ 64)"

definition setUint32_be :: "int \<Rightarrow> bytes" where
  "setUint32_be v = rev (le_bytes 4 (v mod 2 ^ 32))"

text \<open>Reading a byte sequence back as a number, for stating what the encoders produce.\<close>

fun le_value :: "bytes \<Rightarrow> int" where
  "le_value [] = 0"
| "le_value (b # bs) = uint b + 256 * le_value bs"

definition be_value :: "bytes \<Rightarrow> int" where
  "be_value bs = le_value (rev bs)"

text \<open>
  \<^verbatim>\<open>new TextEncoder().encode(s)\<close>: the code units are read as code points (a high
  surrogate followed by a low one is one supplementary code point, any other surrogate is
  replaced by U+FFFD), and each code point is written in UTF-8.
\<close>

definition is_high_surrogate :: "code_unit \<Rightarrow> bool" where
  "is_high_surrogate c \<longleftrightarrow> 0xD800 \<le> c \<and> c \<le> 0xDBFF"

definition is_low_surrogate :: "code_unit \<Rightarrow> bool" where
  "is_low_surrogate c \<longleftrightarrow> 0xDC00 \<le> c \<and> c \<le> 0xDFFF"

definition scalar_of_unit :: "code_unit \<Rightarrow> nat" where
  "scalar_of_unit c =
     (if is_high_surrogate c \<or> is_low_surrogate c then 0xFFFD else unat c)"

fun code_points :: "jsstring \<Rightarrow> nat list" where
  "code_points [] = []"
| "code_points [c] = [scalar_of_unit c]"
| "code_points (c # d # cs) =
     (if is_high_surrogate c \<and> is_low_surrogate d
      then (0x10000 + (unat c - 0xD800) * 0x400 + (unat d - 0xDC00)) # code_points cs
      else scalar_of_unit c # code_points (d # cs))"

definition utf8_of_code_point :: "nat \<Rightarrow> bytes" where
  "utf8_of_code_point n =
     (if n < 0x80 then [of_nat n]
      else if n < 0x800 then [of_nat (0xC0 + n div 0x40), of_nat (0x80 + n mod 0x40)]
      else if n < 0x10000 then
        [of_nat (0xE0 + n div 0x1000), of_nat (0x80 + n div 0x40 mod 0x40),
         of_nat (0x80 + n mod 0x40)]
      else
        [of_nat (0xF0 + n div 0x40000), of_nat (0x80 + n div 0x1000 mod 0x40),
         of_nat (0x80 + n div 0x40 mod 0x40), of_nat (0x80 + n mod 0x40)])"

definition TextEncoder_encode :: "jsstring \<Rightarrow> bytes" where
  "TextEncoder_encode s = concat (map utf8_of_code_point (code_points s))"

text \<open>
  \<^verbatim>\<open>result.set(part, offset)\<close> on a typed array overwrites the elements from
  \<open>offset\<close> on, and raises a \<^verbatim>\<open>RangeError\<close> when the source does not fit.
\<close>

definition typed_array_set :: "bytes \<Rightarrow> bytes \<Rightarrow> nat \<Rightarrow> error + bytes" where
  "typed_array_set result part offset =
     (if offset + length part \<le> length result
      then Inr (take offset result @ part @ drop (offset + length part) result)
      else Inl RangeError)"

section \<open>Transaction codec (\<^verbatim>\<open>transaction/index.ts\<close>)\<close>

definition encodeU64 :: "int \<Rightarrow> bytes" where
  "encodeU64 v = setBigUint64_le v"

text \<open>
  The tail of \<^verbatim>\<open>serializeForSigning\<close> and \<^verbatim>\<open>serializeTransaction\<close>: the length of
  the result is the sum of the lengths of the parts, and the parts are copied into a
  zero-filled array one after the other.
\<close>

fun copy_parts :: "bytes list \<Rightarrow> bytes \<Rightarrow> nat \<Rightarrow> error + bytes" where
  "copy_parts [] result offset = Inr result"
| "copy_parts (part # parts) result offset =
     (case typed_array_set result part offset of
        Inl e \<Rightarrow> Inl e
      | Inr result' \<Rightarrow> copy_parts parts result' (offset + length part))"

definition concatenate_parts :: "bytes list \<Rightarrow> error + bytes" where
  "concatenate_parts parts =
     (let totalLength = foldl (\<lambda>sum p. sum + length p) 0 parts;
          result = replicate totalLength 0
      in copy_parts parts result 0)"

text \<open>The parts pushed by both serializers before the signature.\<close>

definition payload_parts :: "bytes option \<Rightarrow> bytes list" where
  "payload_parts p =
     (case p of
        None \<Rightarrow> [[0]]
      | Some bs \<Rightarrow> [[1], encodeU64 (int (length bs)), bs])"

definition body_parts :: "Transaction \<Rightarrow> bytes list" where
  "body_parts tx =
     (let chainIdBytes = TextEncoder_encode (chainId tx)
      in [[of_nat (TxType_ordinal (txType tx))]]
         @ [encodeU64 (int (length chainIdBytes)), chainIdBytes]
         @ [tx_from tx]
         @ [tx_to tx]
         @ [encodeU64 (amount tx)]
         @ payload_parts (payload tx)
         @ [encodeU64 (nonce tx)]
         @ [encodeU64 (timestamp tx)])"

definition serializeForSigning :: "Transaction \<Rightarrow> error + bytes" where
  "serializeForSigning tx = concatenate_parts (body_parts tx @ [replicate 64 0])"

definition serializeTransaction :: "Transaction \<Rightarrow> error + bytes" where
  "serializeTransaction tx = concatenate_parts (body_parts tx @ [signature tx])"

text \<open>
  \<^verbatim>\<open>Math.ceil(n / 1024)\<close> for an array length \<open>n\<close>: the quotient by a power of two is
  exact in double precision, so the result is the integer quotient, plus one when there
  is a remainder.
\<close>

definition ceil_kb :: "nat \<Rightarrow> nat" where
  "ceil_kb n = (if n mod 1024 = 0 then n div 1024 else n div 1024 + 1)"

definition calculateFee :: "Transaction \<Rightarrow> int" where
  "calculateFee tx =
     (if txType tx = Stake \<or> txType tx = Unstake then STAKING_FEE
      else if txType tx = SubmitProposal then STAKING_FEE
      else (case payload tx of
              None \<Rightarrow> BASE_FEE
            | Some bs \<Rightarrow> BASE_FEE + int (ceil_kb (length bs)) * FEE_PER_KB_PAYLOAD))"

section \<open>Hashing (\<^verbatim>\<open>crypto/hash.ts\<close>)\<close>

text \<open>
  The digest \<^verbatim>\<open>sha3_256\<close> comes from a library; every function that hashes takes it
  as its first argument. \<^verbatim>\<open>hash\<close> is modelled on byte arrays, the only way the
  functions below call it.
\<close>

definition hash :: "(bytes \<Rightarrow> bytes) \<Rightarrow> bytes \<Rightarrow> bytes" where
  "hash sha3_256 data = sha3_256 data"

text \<open>
  \<^verbatim>\<open>const combined = new Uint8Array(a.length + b.length); combined.set(a, 0);
  combined.set(b, a.length)\<close>, as \<^verbatim>\<open>merkleRoot\<close> and \<^verbatim>\<open>mnemonicToKeyPair\<close> do.
\<close>

definition combine_arrays :: "bytes \<Rightarrow> bytes \<Rightarrow> error + bytes" where
  "combine_arrays a b =
     (case typed_array_set (replicate (length a + length b) 0) a 0 of
        Inl e \<Rightarrow> Inl e
      | Inr combined \<Rightarrow> typed_array_set combined b (length a))"

text \<open>
  The inner \<^verbatim>\<open>for\<close> loop of \<^verbatim>\<open>merkleRoot\<close>. \<^verbatim>\<open>currentLevel[i + 1] || left\<close> is
  \<open>left\<close> exactly when the index is out of range: an array object is never falsy.
\<close>

function merkle_level ::
  "(bytes \<Rightarrow> bytes) \<Rightarrow> bytes list \<Rightarrow> nat \<Rightarrow> bytes list \<Rightarrow> error + bytes list" where
  "merkle_level sha3_256 currentLevel i nextLevel =
     (if i < length currentLevel then
        (let left = currentLevel ! i;
             right = (if i + 1 < length currentLevel then currentLevel ! (i + 1) else left)
         in case combine_arrays left right of
              Inl e \<Rightarrow> Inl e
            | Inr combined \<Rightarrow>
                merkle_level sha3_256 currentLevel (i + 2) (nextLevel @ [hash sha3_256 combined]))
      else Inr nextLevel)"
  by pat_completeness auto
termination
  by (relation "measure (\<lambda>(sha3_256, currentLevel, i, nextLevel). length currentLevel - i)") auto

declare merkle_level.simps [simp del]

text \<open>
  The \<^verbatim>\<open>while (currentLevel.length > 1)\<close> loop. Each level is shorter than the one
  before, which is why the loop ends.
\<close>

lemma combine_arrays_append: "combine_arrays a b = Inr (a @ b)"
  by (simp add: combine_arrays_def typed_array_set_def)

lemma merkle_level_length:
  "merkle_level sha3_256 currentLevel i nextLevel = Inr r \<Longrightarrow>
   length r = length nextLevel + (length currentLevel - i + 1) div 2"
proof (induction sha3_256 currentLevel i nextLevel rule: merkle_level.induct)
  case (1 sha3_256 currentLevel i nextLevel)
  show ?case
  proof (cases "i < length currentLevel")
    case True
    let ?left = "currentLevel ! i"
    let ?right = "if i + 1 < length currentLevel then currentLevel ! (i + 1) else ?left"
    have c: "combine_arrays ?left ?right = Inr (?left @ ?right)"
      by (rule combine_arrays_append)
    from "1.prems" True c
    have "merkle_level sha3_256 currentLevel (i + 2)
            (nextLevel @ [hash sha3_256 (?left @ ?right)]) = Inr r"
      by (subst (asm) merkle_level.simps) (simp add: Let_def)
    from "1.IH" [OF True refl refl c this]
    have "length r = length nextLevel + 1 + (length currentLevel - (i + 2) + 1) div 2"
      by simp
    with True show ?thesis
      by arith
  next
    case False
    with "1.prems" show ?thesis
      by (subst (asm) merkle_level.simps) simp
  qed
qed

function merkle_while :: "(bytes \<Rightarrow> bytes) \<Rightarrow> bytes list \<Rightarrow> error + bytes list" where
  "merkle_while sha3_256 currentLevel =
     (if length currentLevel > 1 then
        (case merkle_level sha3_256 currentLevel 0 [] of
           Inl e \<Rightarrow> Inl e
         | Inr nextLevel \<Rightarrow> merkle_while sha3_256 nextLevel)
      else Inr currentLevel)"
  by pat_completeness auto
termination
proof (relation "measure (\<lambda>(sha3_256, currentLevel). length currentLevel)")
  show "wf (measure (\<lambda>(sha3_256 :: bytes \<Rightarrow> bytes, currentLevel :: bytes list). length currentLevel))"
    by simp
next
  fix sha3_256 :: "bytes \<Rightarrow> bytes" and currentLevel nextLevel :: "bytes list"
  assume "1 < length currentLevel"
    and "merkle_level sha3_256 currentLevel 0 [] = Inr nextLevel"
  then show "((sha3_256, nextLevel), (sha3_256, currentLevel))
          \<in> measure (\<lambda>(sha3_256, currentLevel). length currentLevel)"
    using merkle_level_length [of sha3_256 currentLevel 0 "[]" nextLevel] by simp
qed

declare merkle_while.simps [simp del]

text \<open>
  \<^verbatim>\<open>merkleRoot\<close>. The final \<^verbatim>\<open>currentLevel[0]\<close> reads a non-empty array: the loop
  is entered with at least two elements and no level is empty.
\<close>

definition merkleRoot :: "(bytes \<Rightarrow> bytes) \<Rightarrow> bytes list \<Rightarrow> error + bytes" where
  "merkleRoot sha3_256 hashes =
     (if length hashes = 0 then Inr (hash sha3_256 [])
      else if length hashes = 1 then Inr (hashes ! 0)
      else (case merkle_while sha3_256 hashes of
              Inl e \<Rightarrow> Inl e
            | Inr currentLevel \<Rightarrow> Inr (currentLevel ! 0)))"

text \<open>
  The pairing step in the words of the specification: adjacent elements are combined left
  to right by hashing their concatenation, and the last element of a level of odd length
  is paired with itself.
\<close>

fun spec_combine_pairs :: "(bytes \<Rightarrow> bytes) \<Rightarrow> bytes list \<Rightarrow> bytes list" where
  "spec_combine_pairs digest [] = []"
| "spec_combine_pairs digest [h] = [digest (h @ h)]"
| "spec_combine_pairs digest (h1 # h2 # hs) = digest (h1 @ h2) # spec_combine_pairs digest hs"

section \<open>Keys (\<^verbatim>\<open>crypto/keys.ts\<close>)\<close>

text \<open>
  The Ed25519 operations \<^verbatim>\<open>ed.getPublicKey\<close> and \<^verbatim>\<open>ed.sign\<close> come from a library and
  are arguments of the functions that call them.
\<close>

record KeyPair =
  privateKey :: bytes
  publicKey :: bytes

definition KeyPair_fromPrivateKey :: "(bytes \<Rightarrow> bytes) \<Rightarrow> bytes \<Rightarrow> error + KeyPair" where
  "KeyPair_fromPrivateKey ed_getPublicKey key =
     (if length key \<noteq> 32 then Inl (TesseraError KeyGenerationError)
      else Inr \<lparr>privateKey = key, publicKey = ed_getPublicKey key\<rparr>)"

definition KeyPair_fromSeed :: "(bytes \<Rightarrow> bytes) \<Rightarrow> bytes \<Rightarrow> error + KeyPair" where
  "KeyPair_fromSeed ed_getPublicKey seed =
     (if length seed \<noteq> 32 then Inl (TesseraError KeyGenerationError)
      else KeyPair_fromPrivateKey ed_getPublicKey seed)"


section \<open>Mnemonics (\<^verbatim>\<open>crypto/mnemonic.ts\<close>)\<close>

text \<open>
  \<^verbatim>\<open>validateMnemonic\<close> and \<^verbatim>\<open>mnemonicToSeedSync\<close> come from the BIP39 library, with the
  English word list fixed. The account index is a number; the model takes an integer.
\<close>

definition isValidMnemonic :: "(jsstring \<Rightarrow> bool) \<Rightarrow> jsstring \<Rightarrow> bool" where
  "isValidMnemonic validateMnemonic mnemonic = validateMnemonic mnemonic"

definition mnemonicToKeyPair ::
  "(jsstring \<Rightarrow> bool) \<Rightarrow> (jsstring \<Rightarrow> jsstring \<Rightarrow> bytes) \<Rightarrow> (bytes \<Rightarrow> bytes) \<Rightarrow> (bytes \<Rightarrow> bytes)
   \<Rightarrow> jsstring \<Rightarrow> jsstring \<Rightarrow> int \<Rightarrow> error + KeyPair" where
  "mnemonicToKeyPair validateMnemonic mnemonicToSeedSync sha3_256 ed_getPublicKey
       mnemonic passphrase accountIndex =
     (if \<not> isValidMnemonic validateMnemonic mnemonic then Inl (TesseraError InvalidMnemonic)
      else
        (let seed = mnemonicToSeedSync mnemonic passphrase;
             accountBytes = setUint32_be accountIndex
         in case combine_arrays seed accountBytes of
              Inl e \<Rightarrow> Inl e
            | Inr combined \<Rightarrow> KeyPair_fromSeed ed_getPublicKey (hash sha3_256 combined)))"

text \<open>The \<^verbatim>\<open>for (let i = 0; i < count; i++)\<close> loop of \<^verbatim>\<open>mnemonicToKeyPairs\<close>.\<close>

function keyPairs_loop ::
  "(jsstring \<Rightarrow> bool) \<Rightarrow> (jsstring \<Rightarrow> jsstring \<Rightarrow> bytes) \<Rightarrow> (bytes \<Rightarrow> bytes) \<Rightarrow> (bytes \<Rightarrow> bytes)
   \<Rightarrow> jsstring \<Rightarrow> int \<Rightarrow> jsstring \<Rightarrow> int \<Rightarrow> KeyPair list \<Rightarrow> error + KeyPair list" where
  "keyPairs_loop validateMnemonic mnemonicToSeedSync sha3_256 ed_getPublicKey
       mnemonic count passphrase i keyPairs =
     (if i < count then
        (case mnemonicToKeyPair validateMnemonic mnemonicToSeedSync sha3_256 ed_getPublicKey
                mnemonic passphrase i of
           Inl e \<Rightarrow> Inl e
         | Inr kp \<Rightarrow>
             keyPairs_loop validateMnemonic mnemonicToSeedSync sha3_256 ed_getPublicKey
               mnemonic count passphrase (i + 1) (keyPairs @ [kp]))
      else Inr keyPairs)"
  by pat_completeness auto
termination
  by (relation "measure (\<lambda>(v, s, h, g, mnemonic, count, passphrase, i, keyPairs). nat (count - i))")
    auto

declare keyPairs_loop.simps [simp del]

definition mnemonicToKeyPairs ::
  "(jsstring \<Rightarrow> bool) \<Rightarrow> (jsstring \<Rightarrow> jsstring \<Rightarrow> bytes) \<Rightarrow> (bytes \<Rightarrow> bytes) \<Rightarrow> (bytes \<Rightarrow> bytes)
   \<Rightarrow> jsstring \<Rightarrow> int \<Rightarrow> jsstring \<Rightarrow> error + KeyPair list" where
  "mnemonicToKeyPairs validateMnemonic mnemonicToSeedSync sha3_256 ed_getPublicKey
       mnemonic count passphrase =
     keyPairs_loop validateMnemonic mnemonicToSeedSync sha3_256 ed_getPublicKey
       mnemonic count passphrase 0 []"

text \<open>
  The derivation in the words of the specification: the private key is the digest of the
  seed followed by the big-endian index, and the public key is derived from it.
\<close>

definition derived_keyPair ::
  "(jsstring \<Rightarrow> jsstring \<Rightarrow> bytes) \<Rightarrow> (bytes \<Rightarrow> bytes) \<Rightarrow> (bytes \<Rightarrow> bytes)
   \<Rightarrow> jsstring \<Rightarrow> jsstring \<Rightarrow> int \<Rightarrow> KeyPair" where
  "derived_keyPair mnemonicToSeedSync digest ed_getPublicKey phrase passphrase accountIndex =
     (let key = digest (mnemonicToSeedSync phrase passphrase @ setUint32_be accountIndex)
      in \<lparr>privateKey = key, publicKey = ed_getPublicKey key\<rparr>)"

section \<open>Transaction builder (\<^verbatim>\<open>transaction/index.ts\<close>)\<close>

datatype VoteOption = Yes | No | Abstain | NoWithVeto

record StakeOptions =
  stake_amount :: int
  stake_nonce :: int
  stake_chainId :: "jsstring option"
  stake_timestamp :: "int option"

record UnstakeOptions =
  unstake_amount :: int
  unstake_nonce :: int
  unstake_chainId :: "jsstring option"
  unstake_timestamp :: "int option"

text \<open>
  The elements of \<^verbatim>\<open>changes\<close> hold numbers or strings; the builder only passes them to
  \<^verbatim>\<open>JSON.stringify\<close>, so their type is left open.
\<close>

record 'c ProposalPayload =
  title :: jsstring
  description :: jsstring
  changes :: 'c

record 'c SubmitProposalOptions =
  proposal_title :: jsstring
  proposal_description :: jsstring
  proposal_changes :: 'c
  proposal_deposit :: int
  proposal_nonce :: int
  proposal_chainId :: "jsstring option"
  proposal_timestamp :: "int option"

record VoteOptions =
  vote_proposalId :: int
  vote_option :: VoteOption
  vote_nonce :: int
  vote_chainId :: "jsstring option"
  vote_timestamp :: "int option"

record TransactionBuilder =
  keyPair :: KeyPair
  defaultChainId :: jsstring

text \<open>\<^verbatim>\<open>a ?? b\<close> for an optional field.\<close>

definition nullish :: "'a option \<Rightarrow> 'a \<Rightarrow> 'a" where
  "nullish a b = (case a of None \<Rightarrow> b | Some x \<Rightarrow> x)"

definition validatePayload :: "bytes option \<Rightarrow> error + unit" where
  "validatePayload p =
     (case p of
        None \<Rightarrow> Inr ()
      | Some bs \<Rightarrow>
          if length bs > MAX_PAYLOAD_SIZE then Inl (TesseraError InvalidTransaction)
          else Inr ())"

text \<open>
  The builders read the clock through \<^verbatim>\<open>getCurrentTimestamp()\<close>; its result is the
  argument \<open>now\<close>.
\<close>

definition buildStake :: "TransactionBuilder \<Rightarrow> int \<Rightarrow> StakeOptions \<Rightarrow> Transaction" where
  "buildStake builder now options =
     \<lparr>txType = Stake,
      chainId = nullish (stake_chainId options) (defaultChainId builder),
      tx_from = publicKey (keyPair builder),
      tx_to = publicKey (keyPair builder),
      amount = stake_amount options,
      payload = None,
      nonce = stake_nonce options,
      timestamp = nullish (stake_timestamp options) now,
      signature = replicate 64 0\<rparr>"

definition buildUnstake :: "TransactionBuilder \<Rightarrow> int \<Rightarrow> UnstakeOptions \<Rightarrow> Transaction" where
  "buildUnstake builder now options =
     \<lparr>txType = Unstake,
      chainId = nullish (unstake_chainId options) (defaultChainId builder),
      tx_from = publicKey (keyPair builder),
      tx_to = publicKey (keyPair builder),
      amount = unstake_amount options,
      payload = None,
      nonce = unstake_nonce options,
      timestamp = nullish (unstake_timestamp options) now,
      signature = replicate 64 0\<rparr>"

text \<open>
  \<^verbatim>\<open>JSON.stringify\<close> is an argument: \<open>stringify_proposal\<close> is its value on a proposal
  payload, and \<open>stringify_vote id opt\<close> its value on the object
  \<^verbatim>\<open>{proposal_id: Number(id), option: opt}\<close>.
\<close>

definition buildSubmitProposal ::
  "('c ProposalPayload \<Rightarrow> jsstring) \<Rightarrow> TransactionBuilder \<Rightarrow> int \<Rightarrow> 'c SubmitProposalOptions
   \<Rightarrow> error + Transaction" where
  "buildSubmitProposal stringify_proposal builder now options =
     (let proposalPayload =
            \<lparr>title = proposal_title options,
             description = proposal_description options,
             changes = proposal_changes options\<rparr>;
          payloadBytes = TextEncoder_encode (stringify_proposal proposalPayload)
      in case validatePayload (Some payloadBytes) of
           Inl e \<Rightarrow> Inl e
         | Inr _ \<Rightarrow>
             Inr \<lparr>txType = SubmitProposal,
                  chainId = nullish (proposal_chainId options) (defaultChainId builder),
                  tx_from = publicKey (keyPair builder),
                  tx_to = publicKey (keyPair builder),
                  amount = proposal_deposit options,
                  payload = Some payloadBytes,
                  nonce = proposal_nonce options,
                  timestamp = nullish (proposal_timestamp options) now,
                  signature = replicate 64 0\<rparr>)"

definition buildVote ::
  "(int \<Rightarrow> VoteOption \<Rightarrow> jsstring) \<Rightarrow> TransactionBuilder \<Rightarrow> int \<Rightarrow> VoteOptions \<Rightarrow> Transaction" where
  "buildVote stringify_vote builder now options =
     (let payloadBytes =
            TextEncoder_encode (stringify_vote (vote_proposalId options) (vote_option options))
      in \<lparr>txType = Vote,
          chainId = nullish (vote_chainId options) (defaultChainId builder),
          tx_from = publicKey (keyPair builder),
          tx_to = publicKey (keyPair builder),
          amount = 0,
          payload = Some payloadBytes,
          nonce = vote_nonce options,
          timestamp = nullish (vote_timestamp options) now,
          signature = replicate 64 0\<rparr>)"



section \<open>Strings and numbers of the platform\<close>

text \<open>
  \<open>StrWhiteSpaceChar\<close> of the language specification: the white space and line terminator
  code points that \<^verbatim>\<open>parseInt\<close> skips and \<^verbatim>\<open>BigInt\<close> trims.
\<close>

definition is_StrWhiteSpaceChar :: "code_unit \<Rightarrow> bool" where
  "is_StrWhiteSpaceChar c \<longleftrightarrow>
     c = 0x09 \<or> c = 0x0A \<or> c = 0x0B \<or> c = 0x0C \<or> c = 0x0D \<or> c = 0x20 \<or> c = 0xA0
     \<or> c = 0x1680 \<or> (0x2000 \<le> c \<and> c \<le> 0x200A) \<or> c = 0x2028 \<or> c = 0x2029
     \<or> c = 0x202F \<or> c = 0x205F \<or> c = 0x3000 \<or> c = 0xFEFF"

text \<open>The value of a digit or letter as a digit, and the digits of a radix.\<close>

definition alnum_value :: "code_unit \<Rightarrow> nat option" where
  "alnum_value c =
     (if 0x30 \<le> c \<and> c \<le> 0x39 then Some (unat c - 0x30)
      else if 0x61 \<le> c \<and> c \<le> 0x7A then Some (unat c - 0x61 + 10)
      else if 0x41 \<le> c \<and> c \<le> 0x5A then Some (unat c - 0x41 + 10)
      else None)"

definition radix_digit :: "nat \<Rightarrow> code_unit \<Rightarrow> nat option" where
  "radix_digit R c =
     (case alnum_value c of
        None \<Rightarrow> None
      | Some v \<Rightarrow> if v < R then Some v else None)"

definition is_radix_digit :: "nat \<Rightarrow> code_unit \<Rightarrow> bool" where
  "is_radix_digit R c \<longleftrightarrow> radix_digit R c \<noteq> None"

definition digits_value :: "nat \<Rightarrow> jsstring \<Rightarrow> nat" where
  "digits_value R ds = foldl (\<lambda>acc c. acc * R + the (radix_digit R c)) 0 ds"

text \<open>
  \<^verbatim>\<open>parseInt(string, radix)\<close>, step by step as the language specification gives it;
  \<open>None\<close> is \<^verbatim>\<open>NaN\<close>. The result is a double: it is the exact integer for the strings of at
  most two characters that \<^verbatim>\<open>hexToBytes\<close> passes.
\<close>

definition parseInt :: "jsstring \<Rightarrow> nat \<Rightarrow> int option" where
  "parseInt inputString radix =
     (let S1 = dropWhile is_StrWhiteSpaceChar inputString;
          sign = (if S1 \<noteq> [] \<and> hd S1 = 0x2D then - 1 else 1 :: int);
          S2 = (if S1 \<noteq> [] \<and> (hd S1 = 0x2B \<or> hd S1 = 0x2D) then tl S1 else S1);
          stripPrefix = (radix = 0 \<or> radix = 16);
          hasPrefix = (stripPrefix \<and> length S2 \<ge> 2 \<and> S2 ! 0 = 0x30
                        \<and> (S2 ! 1 = 0x78 \<or> S2 ! 1 = 0x58));
          R = (if hasPrefix then 16 else if radix = 0 then 10 else radix);
          S3 = (if hasPrefix then drop 2 S2 else S2);
          Z = takeWhile (is_radix_digit R) S3
      in if radix \<noteq> 0 \<and> (radix < 2 \<or> radix > 36) then None
         else if Z = [] then None
         else Some (sign * int (digits_value R Z)))"

text \<open>
  The digits of a non-negative integer in a radix, most significant first, as
  \<^verbatim>\<open>Number.prototype.toString(16)\<close> gives them for a byte and
  \<^verbatim>\<open>BigInt.prototype.toString()\<close> for a big integer.
\<close>

definition digit_char :: "nat \<Rightarrow> code_unit" where
  "digit_char d = (if d < 10 then of_nat (0x30 + d) else of_nat (0x61 + (d - 10)))"

function radix_string :: "nat \<Rightarrow> nat \<Rightarrow> jsstring" where
  "radix_string R n =
     (if R < 2 \<or> n < R then [digit_char n]
      else radix_string R (n div R) @ [digit_char (n mod R)])"
  by pat_completeness auto
termination
  by (relation "measure (\<lambda>(R, n). n)") auto

declare radix_string.simps [simp del]

definition bigint_toString :: "int \<Rightarrow> jsstring" where
  "bigint_toString n =
     (if n < 0 then 0x2D # radix_string 10 (nat (- n)) else radix_string 10 (nat n))"

text \<open>
  \<^verbatim>\<open>BigInt(string)\<close>: the string is trimmed; the empty string is 0; otherwise it must be
  decimal digits with an optional sign, or unsigned digits after \<^verbatim>\<open>0x\<close>, \<^verbatim>\<open>0o\<close> or
  \<^verbatim>\<open>0b\<close>; anything else raises a \<^verbatim>\<open>SyntaxError\<close>.
\<close>

definition trim_whitespace :: "jsstring \<Rightarrow> jsstring" where
  "trim_whitespace s =
     rev (dropWhile is_StrWhiteSpaceChar (rev (dropWhile is_StrWhiteSpaceChar s)))"

definition all_digits_value :: "nat \<Rightarrow> jsstring \<Rightarrow> nat option" where
  "all_digits_value R ds =
     (if ds \<noteq> [] \<and> list_all (is_radix_digit R) ds then Some (digits_value R ds) else None)"

definition StringToBigInt :: "jsstring \<Rightarrow> int option" where
  "StringToBigInt str =
     (let s = trim_whitespace str
      in if s = [] then Some 0
         else if length s \<ge> 2 \<and> s ! 0 = 0x30 \<and> (s ! 1 = 0x78 \<or> s ! 1 = 0x58)
           then map_option int (all_digits_value 16 (drop 2 s))
         else if length s \<ge> 2 \<and> s ! 0 = 0x30 \<and> (s ! 1 = 0x6F \<or> s ! 1 = 0x4F)
           then map_option int (all_digits_value 8 (drop 2 s))
         else if length s \<ge> 2 \<and> s ! 0 = 0x30 \<and> (s ! 1 = 0x62 \<or> s ! 1 = 0x42)
           then map_option int (all_digits_value 2 (drop 2 s))
         else if hd s = 0x2B then map_option int (all_digits_value 10 (tl s))
         else if hd s = 0x2D then map_option (\<lambda>n. - int n) (all_digits_value 10 (tl s))
         else map_option int (all_digits_value 10 s))"

definition BigInt :: "jsstring \<Rightarrow> error + int" where
  "BigInt str = (case StringToBigInt str of None \<Rightarrow> Inl SyntaxError | Some n \<Rightarrow> Inr n)"

text \<open>
  String methods. \<^verbatim>\<open>padStart\<close> and \<^verbatim>\<open>padEnd\<close> are modelled for a one-character filler,
  \<^verbatim>\<open>substring\<close> for \<open>a \<le> b\<close>, and \<^verbatim>\<open>split\<close> for a one-character separator: the ways the
  source calls them.
\<close>

definition startsWith :: "jsstring \<Rightarrow> jsstring \<Rightarrow> bool" where
  "startsWith s p \<longleftrightarrow> take (length p) s = p"

definition substring :: "jsstring \<Rightarrow> nat \<Rightarrow> nat \<Rightarrow> jsstring" where
  "substring s a b = take (b - a) (drop a s)"

definition slice_string :: "jsstring \<Rightarrow> int \<Rightarrow> int \<Rightarrow> jsstring" where
  "slice_string s a b =
     (let len = int (length s);
          k = (if a < 0 then max (len + a) 0 else min a len);
          final = (if b < 0 then max (len + b) 0 else min b len)
      in take (nat (final - k)) (drop (nat k) s))"

definition slice_from :: "jsstring \<Rightarrow> int \<Rightarrow> jsstring" where
  "slice_from s a = slice_string s a (int (length s))"

definition padStart :: "jsstring \<Rightarrow> nat \<Rightarrow> code_unit \<Rightarrow> jsstring" where
  "padStart s targetLength c = replicate (targetLength - length s) c @ s"

definition padEnd :: "jsstring \<Rightarrow> nat \<Rightarrow> code_unit \<Rightarrow> jsstring" where
  "padEnd s targetLength c = s @ replicate (targetLength - length s) c"

fun split :: "jsstring \<Rightarrow> code_unit \<Rightarrow> jsstring list" where
  "split [] sep = [[]]"
| "split (c # cs) sep =
     (if c = sep then [] # split cs sep
      else (case split cs sep of
              [] \<Rightarrow> [[c]]
            | p # ps \<Rightarrow> (c # p) # ps))"

text \<open>\<^verbatim>\<open>parts[i] || d\<close>: the default replaces a missing element and an empty string.\<close>

definition element_or :: "jsstring list \<Rightarrow> nat \<Rightarrow> jsstring \<Rightarrow> jsstring" where
  "element_or parts i d =
     (if i < length parts \<and> parts ! i \<noteq> [] then parts ! i else d)"

text \<open>\<^verbatim>\<open>s.replace(/0+$/, '')\<close> removes the zeros at the end of the string.\<close>

definition strip_trailing_zeros :: "jsstring \<Rightarrow> jsstring" where
  "strip_trailing_zeros s = rev (dropWhile (\<lambda>c. c = 0x30) (rev s))"

section \<open>Formatting (\<^verbatim>\<open>utils/format.ts\<close>)\<close>

definition bytesToHex :: "bytes \<Rightarrow> jsstring" where
  "bytesToHex bs = concat (map (\<lambda>b. padStart (radix_string 16 (unat b)) 2 0x30) bs)"

text \<open>
  The loop of \<^verbatim>\<open>hexToBytes\<close>. Storing a number into a \<^verbatim>\<open>Uint8Array\<close> reduces it modulo
  256.
\<close>

function hexToBytes_loop :: "jsstring \<Rightarrow> nat \<Rightarrow> bytes \<Rightarrow> error + bytes" where
  "hexToBytes_loop cleanHex i bs =
     (if i < length cleanHex then
        (case parseInt (substring cleanHex i (i + 2)) 16 of
           None \<Rightarrow> Inl (TesseraError InvalidAddress)
         | Some b \<Rightarrow> hexToBytes_loop cleanHex (i + 2) (bs[i div 2 := word_of_int b]))
      else Inr bs)"
  by pat_completeness auto
termination
  by (relation "measure (\<lambda>(cleanHex, i, bs). length cleanHex - i)") auto

declare hexToBytes_loop.simps [simp del]

definition strip_0x :: "jsstring \<Rightarrow> jsstring" where
  "strip_0x hex = (if startsWith hex (lit ''0x'') then drop 2 hex else hex)"

definition hexToBytes :: "jsstring \<Rightarrow> error + bytes" where
  "hexToBytes hex =
     (let cleanHex = strip_0x hex
      in if length cleanHex mod 2 \<noteq> 0 then Inl (TesseraError InvalidAddress)
         else hexToBytes_loop cleanHex 0 (replicate (length cleanHex div 2) 0))"

text \<open>
  \<^verbatim>\<open>isValidHex\<close>, \<^verbatim>\<open>isValidAddress\<close> and \<^verbatim>\<open>parseAddress\<close> of \<^verbatim>\<open>utils/format.ts\<close>. The
  regular expression \<^verbatim>\<open>/^[0-9a-fA-F]*$/\<close> accepts the strings of hexadecimal digits.
\<close>

definition ADDRESS_LENGTH :: nat where "ADDRESS_LENGTH = 32"

definition isValidHex :: "jsstring \<Rightarrow> bool" where
  "isValidHex hex \<longleftrightarrow>
     (let cleanHex = strip_0x hex
      in list_all (is_radix_digit 16) cleanHex \<and> length cleanHex mod 2 = 0)"

definition isValidAddress :: "jsstring \<Rightarrow> bool" where
  "isValidAddress address \<longleftrightarrow>
     (if \<not> isValidHex address then False
      else length (strip_0x address) = ADDRESS_LENGTH * 2)"

definition parseAddress :: "jsstring \<Rightarrow> error + bytes" where
  "parseAddress address =
     (if \<not> isValidAddress address then Inl (TesseraError InvalidAddress)
      else hexToBytes address)"

text \<open>
  \<^verbatim>\<open>parseAmount\<close> on a string argument (a number argument is first printed as a
  double, which is outside this model).
\<close>

definition parseAmount :: "jsstring \<Rightarrow> error + int" where
  "parseAmount str =
     (let parts = split str 0x2E
      in if length parts > 2 then Inl (TesseraError InvalidTransaction)
         else
           (let integerPart = element_or parts 0 (lit ''0'');
                decimalPart0 = element_or parts 1 [];
                decimalPart =
                  (if length decimalPart0 > TOKEN_DECIMALS
                   then slice_string decimalPart0 0 (int TOKEN_DECIMALS)
                   else padEnd decimalPart0 TOKEN_DECIMALS 0x30);
                combined = integerPart @ decimalPart
            in case BigInt combined of
                 Inl e \<Rightarrow> Inl e
               | Inr r \<Rightarrow> if r < 0 then Inl (TesseraError InvalidTransaction) else Inr r))"

definition formatAmount :: "int \<Rightarrow> nat \<Rightarrow> jsstring" where
  "formatAmount baseUnits decimals =
     (let str = padStart (bigint_toString baseUnits) (decimals + 1) 0x30;
          integerPart0 = slice_string str 0 (- int decimals);
          integerPart = (if integerPart0 = [] then lit ''0'' else integerPart0);
          decimalPart = slice_from str (- int decimals);
          trimmedDecimal = strip_trailing_zeros decimalPart
      in if length trimmedDecimal = 0 then integerPart
         else integerPart @ lit ''.'' @ trimmedDecimal)"

section \<open>Wire form (\<^verbatim>\<open>transaction/index.ts\<close>)\<close>

record TransactionJson =
  j_tx_type :: jsstring
  j_chain_id :: jsstring
  j_from :: jsstring
  j_to :: jsstring
  j_amount :: jsstring
  j_payload :: "jsstring option"
  j_nonce :: jsstring
  j_timestamp :: jsstring
  j_signature :: jsstring
  j_hash :: "jsstring option"
  j_fee :: "jsstring option"

definition calculateHash :: "(bytes \<Rightarrow> bytes) \<Rightarrow> Transaction \<Rightarrow> error + jsstring" where
  "calculateHash sha3_256 tx =
     (case serializeTransaction tx of
        Inl e \<Rightarrow> Inl e
      | Inr serialized \<Rightarrow> Inr (bytesToHex (hash sha3_256 serialized)))"

fun txTypeMap_toJson :: "TxType \<Rightarrow> jsstring" where
  "txTypeMap_toJson Transfer = lit ''transfer''"
| "txTypeMap_toJson Stake = lit ''stake''"
| "txTypeMap_toJson Unstake = lit ''unstake''"
| "txTypeMap_toJson SubmitProposal = lit ''submit_proposal''"
| "txTypeMap_toJson Vote = lit ''vote''"

text \<open>
  In \<^verbatim>\<open>tx.payload ? bytesToHex(tx.payload) : null\<close> the test is false only for
  \<^verbatim>\<open>null\<close>: an array object is truthy, also when it is empty.
\<close>

definition transactionToJson :: "(bytes \<Rightarrow> bytes) \<Rightarrow> Transaction \<Rightarrow> error + TransactionJson" where
  "transactionToJson sha3_256 tx =
     (case calculateHash sha3_256 tx of
        Inl e \<Rightarrow> Inl e
      | Inr h \<Rightarrow>
          Inr \<lparr>j_tx_type = txTypeMap_toJson (txType tx),
               j_chain_id = chainId tx,
               j_from = bytesToHex (tx_from tx),
               j_to = bytesToHex (tx_to tx),
               j_amount = bigint_toString (amount tx),
               j_payload = (case payload tx of None \<Rightarrow> None | Some bs \<Rightarrow> Some (bytesToHex bs)),
               j_nonce = bigint_toString (nonce tx),
               j_timestamp = bigint_toString (timestamp tx),
               j_signature = bytesToHex (signature tx),
               j_hash = Some h,
               j_fee = Some (bigint_toString (calculateFee tx))\<rparr>)"

text \<open>
  The table \<^verbatim>\<open>txTypeMap\<close> of \<^verbatim>\<open>jsonToTransaction\<close> is an object literal with five
  properties of its own.
\<close>

definition txTypeMap_fromJson :: "(jsstring \<times> TxType) list" where
  "txTypeMap_fromJson =
     [(lit ''transfer'', Transfer),
      (lit ''stake'', Stake),
      (lit ''unstake'', Unstake),
      (lit ''submit_proposal'', SubmitProposal),
      (lit ''vote'', Vote)]"

text \<open>
  Reading \<^verbatim>\<open>txTypeMap[key]\<close> looks the key up among the object's own properties and
  then in its prototype, \<^verbatim>\<open>Object.prototype\<close>, whose properties (those of the language
  specification, its annex B included) are all functions or objects. So the value read is
  a member of the enum for the five own keys, an inherited function or object for a
  property name of \<^verbatim>\<open>Object.prototype\<close>, and \<^verbatim>\<open>undefined\<close> (here \<open>None\<close>) otherwise.
\<close>

definition Object_prototype_properties :: "jsstring list" where
  "Object_prototype_properties =
     [lit ''constructor'',
      lit ''hasOwnProperty'',
      lit ''isPrototypeOf'',
      lit ''propertyIsEnumerable'',
      lit ''toLocaleString'',
      lit ''toString'',
      lit ''valueOf'',
      lit ''__defineGetter__'',
      lit ''__defineSetter__'',
      lit ''__lookupGetter__'',
      lit ''__lookupSetter__'',
      lit ''__proto__'']"

datatype TxTypeSlot = EnumMember TxType | InheritedProperty jsstring

definition txTypeMap_get :: "jsstring \<Rightarrow> TxTypeSlot option" where
  "txTypeMap_get key =
     (case map_of txTypeMap_fromJson key of
        Some k \<Rightarrow> Some (EnumMember k)
      | None \<Rightarrow>
          if key \<in> set Object_prototype_properties then Some (InheritedProperty key)
          else None)"

text \<open>
  \<^verbatim>\<open>txTypeMap[json.tx_type] ?? TxType.Transfer\<close> falls back only when the value read is
  \<^verbatim>\<open>undefined\<close>. In \<^verbatim>\<open>json.payload ? hexToBytes(json.payload) : null\<close> the test is false
  for \<^verbatim>\<open>null\<close> and for the empty string. The fields are evaluated in the order of the
  object literal, and the first error is the one raised.
\<close>

definition jsonToTransaction :: "TransactionJson \<Rightarrow> error + TxTypeSlot TransactionOf" where
  "jsonToTransaction json =
     (let kind = nullish (txTypeMap_get (j_tx_type json)) (EnumMember Transfer)
      in case hexToBytes (j_from json) of Inl e \<Rightarrow> Inl e | Inr sender \<Rightarrow>
         case hexToBytes (j_to json) of Inl e \<Rightarrow> Inl e | Inr recipient \<Rightarrow>
         case BigInt (j_amount json) of Inl e \<Rightarrow> Inl e | Inr amt \<Rightarrow>
         case (case j_payload json of
                 None \<Rightarrow> Inr None
               | Some p \<Rightarrow>
                   if p = [] then Inr None
                   else (case hexToBytes p of Inl e \<Rightarrow> Inl e | Inr bs \<Rightarrow> Inr (Some bs)))
           of Inl e \<Rightarrow> Inl e | Inr pl \<Rightarrow>
         case BigInt (j_nonce json) of Inl e \<Rightarrow> Inl e | Inr n \<Rightarrow>
         case BigInt (j_timestamp json) of Inl e \<Rightarrow> Inl e | Inr ts \<Rightarrow>
         case hexToBytes (j_signature json) of Inl e \<Rightarrow> Inl e | Inr sg \<Rightarrow>
           Inr \<lparr>txType = kind, chainId = j_chain_id json, tx_from = sender, tx_to = recipient,
                amount = amt, payload = pl, nonce = n, timestamp = ts, signature = sg\<rparr>)"

section \<open>Building a transfer (\<^verbatim>\<open>transaction/index.ts\<close>)\<close>

text \<open>
  The payload of a transfer is given as bytes or as a string, or left out.
  \<^verbatim>\<open>normalizePayload\<close> returns \<^verbatim>\<open>null\<close> for a falsy argument: a missing one and the
  empty string, but not an empty array.
\<close>

datatype PayloadArgument = PayloadBytes bytes | PayloadString jsstring

record TransferOptions =
  transfer_to :: jsstring
  transfer_amount :: int
  transfer_payload :: "PayloadArgument option"
  transfer_nonce :: int
  transfer_chainId :: "jsstring option"
  transfer_timestamp :: "int option"

definition normalizePayload :: "PayloadArgument option \<Rightarrow> bytes option" where
  "normalizePayload p =
     (case p of
        None \<Rightarrow> None
      | Some (PayloadString s) \<Rightarrow> if s = [] then None else Some (TextEncoder_encode s)
      | Some (PayloadBytes bs) \<Rightarrow> Some bs)"

definition buildTransfer :: "TransactionBuilder \<Rightarrow> int \<Rightarrow> TransferOptions \<Rightarrow> error + Transaction" where
  "buildTransfer builder now options =
     (let p = normalizePayload (transfer_payload options)
      in case validatePayload p of
           Inl e \<Rightarrow> Inl e
         | Inr _ \<Rightarrow>
             (case parseAddress (transfer_to options) of
                Inl e \<Rightarrow> Inl e
              | Inr recipient \<Rightarrow>
                  Inr \<lparr>txType = Transfer,
                       chainId = nullish (transfer_chainId options) (defaultChainId builder),
                       tx_from = publicKey (keyPair builder),
                       tx_to = recipient,
                       amount = transfer_amount options,
                       payload = p,
                       nonce = transfer_nonce options,
                       timestamp = nullish (transfer_timestamp options) now,
                       signature = replicate 64 0\<rparr>))"

section \<open>Auxiliary forms used in the proofs\<close>

text \<open>
  The two-character strings on which \<^verbatim>\<open>parseInt(.., 16)\<close> yields a number, and the loop
  of \<^verbatim>\<open>hexToBytes\<close> as a recursion over the pairs of the string.
\<close>

definition pair_parses :: "code_unit \<Rightarrow> code_unit \<Rightarrow> bool" where
  "pair_parses c d \<longleftrightarrow>
     (is_radix_digit 16 c \<and> \<not> (c = 0x30 \<and> (d = 0x78 \<or> d = 0x58)))
     \<or> ((is_StrWhiteSpaceChar c \<or> c = 0x2B \<or> c = 0x2D) \<and> is_radix_digit 16 d)"

fun decode_pairs :: "jsstring \<Rightarrow> error + bytes" where
  "decode_pairs (c # d # rest) =
     (case parseInt [c, d] 16 of
        None \<Rightarrow> Inl (TesseraError InvalidAddress)
      | Some b \<Rightarrow>
          (case decode_pairs rest of
             Inl e \<Rightarrow> Inl e
           | Inr bs \<Rightarrow> Inr (word_of_int b # bs)))"
| "decode_pairs [c] =
     (case parseInt [c] 16 of
        None \<Rightarrow> Inl (TesseraError InvalidAddress)
      | Some b \<Rightarrow> Inr [word_of_int b])"
| "decode_pairs [] = Inr []"

text \<open>
  The value \<^verbatim>\<open>parseAmount\<close> computes from the digits before and after the decimal
  point: an empty integer part counts as 0, and the decimal part is cut or padded with
  zeros to six digits.
\<close>

definition amount_of_parts :: "jsstring \<Rightarrow> jsstring \<Rightarrow> int" where
  "amount_of_parts ip dp =
     int (digits_value 10
       ((if ip = [] then lit ''0'' else ip)
        @ (if length dp > 6 then take 6 dp else dp @ replicate (6 - length dp) 0x30)))"

section \<open>Properties\<close>

subsection \<open>Canonical encoding\<close>

lemma le_bytes_length: "length (le_bytes n v) = n"
  by (induction n arbitrary: v) simp_all

lemma le_value_le_bytes: "le_value (le_bytes n v) = v mod 256 ^ n"
proof (induction n arbitrary: v)
  case 0
  show ?case by simp
next
  case (Suc n)
  have b: "uint (word_of_int (v mod 256) :: byte) = v mod 256"
    by (simp add: uint_word_of_int)
  have "le_value (le_bytes (Suc n) v) = v mod 256 + 256 * ((v div 256) mod 256 ^ n)"
    using Suc.IH [of "v div 256"] b by simp
  also have "\<dots> = v mod 256 ^ Suc n"
    by (simp add: zmod_zmult2_eq)
  finally show ?case .
qed

lemma encodeU64_length: "length (encodeU64 v) = 8"
  by (simp add: encodeU64_def setBigUint64_le_def le_bytes_length)

lemma encodeU64_value: "le_value (encodeU64 v) = v mod 2 ^ 64"
proof -
  have "le_value (encodeU64 v) = (v mod 2 ^ 64) mod 256 ^ 8"
    unfolding encodeU64_def setBigUint64_le_def by (rule le_value_le_bytes)
  then show ?thesis by simp
qed

lemma typed_array_set_length:
  "typed_array_set result part offset = Inr r \<Longrightarrow> length r = length result"
  by (auto simp: typed_array_set_def split: if_splits)

lemma copy_parts_concat:
  "offset + length (concat parts) \<le> length result \<Longrightarrow>
   copy_parts parts result offset =
     Inr (take offset result @ concat parts @ drop (offset + length (concat parts)) result)"
proof (induction parts arbitrary: result offset)
  case Nil
  then show ?case by simp
next
  case (Cons part parts)
  let ?r = "take offset result @ part @ drop (offset + length part) result"
  from Cons.prems have fits: "offset + length part \<le> length result"
    by simp
  then have step: "typed_array_set result part offset = Inr ?r"
    by (simp add: typed_array_set_def)
  have len: "length ?r = length result"
    using fits by simp
  have room: "(offset + length part) + length (concat parts) \<le> length ?r"
    using Cons.prems len by simp
  have tk: "take (offset + length part) ?r = take offset result @ part"
    using fits by simp
  have dr: "drop (offset + length part + length (concat parts)) ?r =
            drop (offset + length (concat (part # parts))) result"
    using fits by (simp add: add.assoc add.commute add.left_commute)
  show ?case
    using Cons.IH [OF room] step tk dr by simp
qed

lemma total_length_concat:
  "foldl (\<lambda>sum p. sum + length p) k parts = k + length (concat parts)"
  by (induction parts arbitrary: k) simp_all

lemma concatenate_parts_concat: "concatenate_parts parts = Inr (concat parts)"
proof -
  have "copy_parts parts (replicate (length (concat parts)) 0) 0 = Inr (concat parts)"
    using copy_parts_concat [of 0 parts "replicate (length (concat parts)) 0"] by simp
  then show ?thesis
    by (simp add: concatenate_parts_def total_length_concat)
qed

text \<open>
  C1: \<^verbatim>\<open>serializeForSigning\<close> returns the concatenation of: one byte with the ordinal of
  the kind; the 8-byte little-endian count of the UTF-8 bytes of the chain id, and those
  bytes; the bytes of \<open>from\<close>; the bytes of \<open>to\<close>; the 8-byte little-endian amount; the
  payload discriminant 0, or 1 followed by the 8-byte little-endian payload length and the
  payload; the 8-byte little-endian nonce; the 8-byte little-endian timestamp; 64 zero
  bytes. The signature of the record has no influence on the result. \<^verbatim>\<open>encodeU64\<close>
  always yields 8 bytes, which read back least significant byte first give the encoded
  value whenever it is an unsigned 64-bit integer.
\<close>

theorem serializeForSigning_layout:
  "serializeForSigning tx =
     Inr ([of_nat (TxType_ordinal (txType tx))]
          @ encodeU64 (int (length (TextEncoder_encode (chainId tx))))
          @ TextEncoder_encode (chainId tx)
          @ tx_from tx
          @ tx_to tx
          @ encodeU64 (amount tx)
          @ (case payload tx of
               None \<Rightarrow> [0]
             | Some bs \<Rightarrow> [1] @ encodeU64 (int (length bs)) @ bs)
          @ encodeU64 (nonce tx)
          @ encodeU64 (timestamp tx)
          @ replicate 64 0)
   \<and> serializeForSigning (tx\<lparr>signature := s\<rparr>) = serializeForSigning tx
   \<and> length (encodeU64 v) = 8
   \<and> (0 \<le> v \<and> v < 2 ^ 64 \<longrightarrow> le_value (encodeU64 v) = v)"
proof -
  have layout: "serializeForSigning tx = Inr (concat (body_parts tx @ [replicate 64 0]))" for tx
    by (simp add: serializeForSigning_def concatenate_parts_concat)
  have frame: "body_parts (tx\<lparr>signature := s\<rparr>) = body_parts tx"
    by (simp add: body_parts_def)
  have "serializeForSigning (tx\<lparr>signature := s\<rparr>) = serializeForSigning tx"
    by (simp add: serializeForSigning_def frame)
  moreover have "0 \<le> v \<and> v < 2 ^ 64 \<longrightarrow> le_value (encodeU64 v) = v"
    by (simp add: encodeU64_value)
  moreover have "concat (body_parts tx @ [replicate 64 0]) =
      [of_nat (TxType_ordinal (txType tx))]
          @ encodeU64 (int (length (TextEncoder_encode (chainId tx))))
          @ TextEncoder_encode (chainId tx)
          @ tx_from tx
          @ tx_to tx
          @ encodeU64 (amount tx)
          @ (case payload tx of
               None \<Rightarrow> [0]
             | Some bs \<Rightarrow> [1] @ encodeU64 (int (length bs)) @ bs)
          @ encodeU64 (nonce tx)
          @ encodeU64 (timestamp tx)
          @ replicate 64 0"
    by (cases "payload tx") (simp_all add: body_parts_def payload_parts_def Let_def)
  ultimately show ?thesis
    using layout [of tx] encodeU64_length [of v] by simp
qed

theorem serializeForSigning_layout_witness:
  "serializeForSigning
     \<lparr>txType = Unstake, chainId = lit ''t1'', tx_from = replicate 32 1, tx_to = replicate 32 2,
      amount = 258, payload = Some [7, 9], nonce = 3, timestamp = 4,
      signature = replicate 64 5\<rparr> =
     Inr ([2] @ [2, 0, 0, 0, 0, 0, 0, 0] @ [116, 49] @ replicate 32 1 @ replicate 32 2
          @ [2, 1, 0, 0, 0, 0, 0, 0] @ [1] @ [2, 0, 0, 0, 0, 0, 0, 0] @ [7, 9]
          @ [3, 0, 0, 0, 0, 0, 0, 0] @ [4, 0, 0, 0, 0, 0, 0, 0] @ replicate 64 0)
   \<and> (0::int) \<le> 258 \<and> (258::int) < 2 ^ 64 \<and> le_value (encodeU64 258) = 258"
proof -
  have enc: "encodeU64 258 = [2, 1, 0, 0, 0, 0, 0, 0]" "encodeU64 2 = [2, 0, 0, 0, 0, 0, 0, 0]"
    "encodeU64 3 = [3, 0, 0, 0, 0, 0, 0, 0]" "encodeU64 4 = [4, 0, 0, 0, 0, 0, 0, 0]"
    by (simp_all add: encodeU64_def setBigUint64_le_def eval_nat_numeral)
  have utf: "TextEncoder_encode (lit ''t1'') = [116, 49]"
    by (simp add: TextEncoder_encode_def lit_def scalar_of_unit_def is_high_surrogate_def
        is_low_surrogate_def utf8_of_code_point_def)
  show ?thesis
    using serializeForSigning_layout [of
      "\<lparr>txType = Unstake, chainId = lit ''t1'', tx_from = replicate 32 1, tx_to = replicate 32 2,
        amount = 258, payload = Some [7, 9], nonce = 3, timestamp = 4,
        signature = replicate 64 5\<rparr>" "[]" 258]
    by (simp add: enc utf)
qed

subsection \<open>Merkle root\<close>

lemma merkle_level_refines:
  "merkle_level sha3_256 currentLevel i nextLevel =
     Inr (nextLevel @ spec_combine_pairs sha3_256 (drop i currentLevel))"
proof (induction sha3_256 currentLevel i nextLevel rule: merkle_level.induct)
  case (1 sha3_256 currentLevel i nextLevel)
  show ?case
  proof (cases "i < length currentLevel")
    case False
    then show ?thesis by (subst merkle_level.simps) simp
  next
    case True
    let ?left = "currentLevel ! i"
    let ?right = "if i + 1 < length currentLevel then currentLevel ! (i + 1) else ?left"
    have c: "combine_arrays ?left ?right = Inr (?left @ ?right)"
      by (rule combine_arrays_append)
    have step: "merkle_level sha3_256 currentLevel i nextLevel =
        merkle_level sha3_256 currentLevel (i + 2) (nextLevel @ [hash sha3_256 (?left @ ?right)])"
      using True c by (subst merkle_level.simps) (simp add: Let_def)
    have ih: "merkle_level sha3_256 currentLevel (i + 2) (nextLevel @ [hash sha3_256 (?left @ ?right)]) =
        Inr ((nextLevel @ [hash sha3_256 (?left @ ?right)])
             @ spec_combine_pairs sha3_256 (drop (i + 2) currentLevel))"
      by (rule "1.IH" [OF True refl refl c])
    have pairs: "spec_combine_pairs sha3_256 (drop i currentLevel) =
        sha3_256 (?left @ ?right) # spec_combine_pairs sha3_256 (drop (i + 2) currentLevel)"
    proof (cases "i + 1 < length currentLevel")
      case True
      then have "drop i currentLevel =
          currentLevel ! i # currentLevel ! (i + 1) # drop (i + 2) currentLevel"
        by (simp add: Cons_nth_drop_Suc)
      with True show ?thesis by simp
    next
      case False
      with True have "drop i currentLevel = [currentLevel ! i]"
        by (metis Cons_nth_drop_Suc Suc_eq_plus1 drop_all not_less)
      moreover from False have "drop (i + 2) currentLevel = []"
        by simp
      ultimately show ?thesis using False by simp
    qed
    show ?thesis
      unfolding step ih pairs by (simp add: hash_def)
  qed
qed

lemma merkle_while_unfold:
  "merkle_while sha3_256 currentLevel =
     (if length currentLevel > 1
      then merkle_while sha3_256 (spec_combine_pairs sha3_256 currentLevel)
      else Inr currentLevel)"
  by (subst merkle_while.simps) (simp add: merkle_level_refines)

lemma spec_combine_pairs_length:
  "length (spec_combine_pairs digest hs) = (length hs + 1) div 2"
  by (induction digest hs rule: spec_combine_pairs.induct) simp_all

lemma merkle_while_singleton:
  "currentLevel \<noteq> [] \<Longrightarrow> \<exists>r. merkle_while sha3_256 currentLevel = Inr [r]"
proof (induction sha3_256 currentLevel rule: merkle_while.induct)
  case (1 sha3_256 currentLevel)
  show ?case
  proof (cases "length currentLevel > 1")
    case True
    have lvl: "merkle_level sha3_256 currentLevel 0 [] = Inr (spec_combine_pairs sha3_256 currentLevel)"
      by (simp add: merkle_level_refines)
    from True have "spec_combine_pairs sha3_256 currentLevel \<noteq> []"
      using spec_combine_pairs_length [of sha3_256 currentLevel] by (auto simp del: length_0_conv simp: length_0_conv [symmetric])
    from "1.IH" [OF True lvl this] True show ?thesis
      by (subst merkle_while_unfold) simp
  next
    case False
    with "1.prems" obtain r where "currentLevel = [r]"
      by (cases currentLevel) auto
    then show ?thesis
      by (subst merkle_while_unfold) simp
  qed
qed

text \<open>
  C3: \<^verbatim>\<open>merkleRoot\<close> of the empty list is the digest of the empty byte string; of a
  one-element list it is that element, not hashed again; of a longer list it is the root
  of the next level, obtained by combining adjacent pairs left to right and pairing the
  last element of an odd level with itself, and this ends with one digest. In particular
  the root of \<open>[h1, h2]\<close> is \<open>hash (h1 @ h2)\<close> and the root of \<open>[h1, h2, h3]\<close> is
  \<open>hash (hash (h1 @ h2) @ hash (h3 @ h3))\<close>.
\<close>

theorem merkleRoot_spec:
  "merkleRoot sha3_256 [] = Inr (hash sha3_256 [])
   \<and> merkleRoot sha3_256 [h] = Inr h
   \<and> (2 \<le> length hashes \<longrightarrow>
        merkleRoot sha3_256 hashes = merkleRoot sha3_256 (spec_combine_pairs sha3_256 hashes))
   \<and> (\<exists>root. merkleRoot sha3_256 hashes = Inr root)
   \<and> merkleRoot sha3_256 [h1, h2] = Inr (hash sha3_256 (h1 @ h2))
   \<and> merkleRoot sha3_256 [h1, h2, h3] =
        Inr (hash sha3_256 (hash sha3_256 (h1 @ h2) @ hash sha3_256 (h3 @ h3)))"
proof -
  have empty: "merkleRoot sha3_256 [] = Inr (hash sha3_256 [])"
    by (simp add: merkleRoot_def)
  have single: "merkleRoot sha3_256 [x] = Inr x" for x
    by (simp add: merkleRoot_def)
  have level: "merkleRoot sha3_256 hs = merkleRoot sha3_256 (spec_combine_pairs sha3_256 hs)"
    if two: "2 \<le> length hs" for hs
  proof -
    let ?next = "spec_combine_pairs sha3_256 hs"
    have unfold: "merkle_while sha3_256 hs = merkle_while sha3_256 ?next"
      using two by (subst merkle_while_unfold) simp
    have len: "length ?next = (length hs + 1) div 2"
      by (rule spec_combine_pairs_length)
    with two have nonempty: "length ?next \<noteq> 0"
      by arith
    from two have ne: "length hs \<noteq> 0" "length hs \<noteq> 1"
      by auto
    have lhs: "merkleRoot sha3_256 hs =
        (case merkle_while sha3_256 ?next of Inl e \<Rightarrow> Inl e | Inr l \<Rightarrow> Inr (l ! 0))"
      using ne unfold by (simp add: merkleRoot_def)
    show ?thesis
    proof (cases "length ?next = 1")
      case True
      then have "merkle_while sha3_256 ?next = Inr ?next"
        by (subst merkle_while_unfold) simp
      with True lhs show ?thesis
        by (simp add: merkleRoot_def)
    next
      case False
      with nonempty lhs show ?thesis
        by (simp add: merkleRoot_def)
    qed
  qed
  have total: "\<exists>root. merkleRoot sha3_256 hashes = Inr root"
  proof (cases "length hashes \<le> 1")
    case True
    then have "length hashes = 0 \<or> length hashes = 1" by arith
    then show ?thesis by (auto simp: merkleRoot_def)
  next
    case False
    then have "hashes \<noteq> []" by auto
    then obtain r where "merkle_while sha3_256 hashes = Inr [r]"
      using merkle_while_singleton by blast
    with False show ?thesis by (simp add: merkleRoot_def)
  qed
  have pair: "merkleRoot sha3_256 [h1, h2] = Inr (hash sha3_256 (h1 @ h2))"
    using level [of "[h1, h2]"] single by (simp add: hash_def)
  have triple: "merkleRoot sha3_256 [h1, h2, h3] =
        Inr (hash sha3_256 (hash sha3_256 (h1 @ h2) @ hash sha3_256 (h3 @ h3)))"
  proof -
    have "merkleRoot sha3_256 [h1, h2, h3] = merkleRoot sha3_256 [sha3_256 (h1 @ h2), sha3_256 (h3 @ h3)]"
      using level [of "[h1, h2, h3]"] by simp
    also have "\<dots> = merkleRoot sha3_256 [sha3_256 (sha3_256 (h1 @ h2) @ sha3_256 (h3 @ h3))]"
      using level [of "[sha3_256 (h1 @ h2), sha3_256 (h3 @ h3)]"] by simp
    finally show ?thesis
      using single by (simp add: hash_def)
  qed
  from empty single level total pair triple show ?thesis
    by blast
qed

theorem merkleRoot_spec_witness:
  "(2::nat) \<le> length [[1], [2, 3], [4, 5, 6], [7], [8::byte]]
   \<and> merkleRoot (take 2) [[1], [2, 3], [4, 5, 6], [7], [8]] =
       merkleRoot (take 2) [[1, 2], [4, 5], [8, 8]]
   \<and> merkleRoot (take 2) [[1], [2, 3], [4, 5, 6]] = Inr [1, 2]"
  using merkleRoot_spec [of "take 2" "[]" "[[1], [2, 3], [4, 5, 6], [7], [8]]"
        "[1]" "[2, 3]" "[4, 5, 6]"]
  by (simp add: hash_def)

subsection \<open>Fee computation\<close>

lemma ceil_kb_ceiling: "int (ceil_kb n) = \<lceil>real n / 1024\<rceil>"
proof -
  have "\<lceil>real n / 1024\<rceil> = \<lceil>real_of_int (int n) / real_of_int 1024\<rceil>"
    by simp
  also have "\<dots> = - ((- int n) div 1024)"
    by (simp only: ceiling_divide_eq_div)
  also have "\<dots> = int (ceil_kb n)"
  proof -
    have "int n mod 1024 = int (n mod 1024)"
      by (simp add: zmod_int)
    then show ?thesis
      by (simp add: ceil_kb_def zdiv_zminus1_eq_if zdiv_int)
  qed
  finally show ?thesis by simp
qed

text \<open>
  C4: Stake, Unstake and SubmitProposal cost the fixed staking fee whatever the amount
  and the payload; every other kind costs the base fee plus the per-kilobyte fee times
  the ceiling of the payload length over 1024, the length of an absent payload being 0.
  A Transfer without payload costs the base fee and one with a 1024-byte payload costs
  the base fee plus one per-kilobyte increment.
\<close>

theorem calculateFee_spec:
  "(txType tx \<in> {Stake, Unstake, SubmitProposal} \<longrightarrow> calculateFee tx = STAKING_FEE)
   \<and> (txType tx \<notin> {Stake, Unstake, SubmitProposal} \<longrightarrow>
        calculateFee tx =
          BASE_FEE + \<lceil>real (case payload tx of None \<Rightarrow> 0 | Some bs \<Rightarrow> length bs) / 1024\<rceil>
                     * FEE_PER_KB_PAYLOAD)
   \<and> (txType tx = Transfer \<and> payload tx = None \<longrightarrow> calculateFee tx = BASE_FEE)
   \<and> (txType tx = Transfer \<and> payload tx = Some bs \<and> length bs = 1024 \<longrightarrow>
        calculateFee tx = BASE_FEE + FEE_PER_KB_PAYLOAD)"
proof -
  have kb: "int (ceil_kb m) = \<lceil>real m / 1024\<rceil>" for m
    by (rule ceil_kb_ceiling)
  have one: "ceil_kb 1024 = 1"
    by (simp add: ceil_kb_def)
  show ?thesis
    by (cases "payload tx") (auto simp: calculateFee_def kb [symmetric] one)
qed

theorem calculateFee_spec_witness:
  "calculateFee \<lparr>txType = Stake, chainId = [], tx_from = [], tx_to = [], amount = 5,
       payload = Some [1, 2, 3], nonce = 1, timestamp = 0, signature = []\<rparr> = 10000
   \<and> calculateFee \<lparr>txType = Vote, chainId = [], tx_from = [], tx_to = [], amount = 0,
       payload = Some (replicate 1025 0), nonce = 1, timestamp = 0, signature = []\<rparr> = 1200
   \<and> calculateFee \<lparr>txType = Transfer, chainId = [], tx_from = [], tx_to = [], amount = 7,
       payload = None, nonce = 1, timestamp = 0, signature = []\<rparr> = 1000
   \<and> calculateFee \<lparr>txType = Transfer, chainId = [], tx_from = [], tx_to = [], amount = 7,
       payload = Some (replicate 1024 0), nonce = 1, timestamp = 0, signature = []\<rparr> = 1100"
  using
    calculateFee_spec [of "\<lparr>txType = Stake, chainId = [], tx_from = [], tx_to = [], amount = 5,
       payload = Some [1, 2, 3], nonce = 1, timestamp = 0, signature = []\<rparr>" "[]"]
    calculateFee_spec [of "\<lparr>txType = Vote, chainId = [], tx_from = [], tx_to = [], amount = 0,
       payload = Some (replicate 1025 0), nonce = 1, timestamp = 0, signature = []\<rparr>" "[]"]
    calculateFee_spec [of "\<lparr>txType = Transfer, chainId = [], tx_from = [], tx_to = [], amount = 7,
       payload = None, nonce = 1, timestamp = 0, signature = []\<rparr>" "[]"]
    calculateFee_spec [of "\<lparr>txType = Transfer, chainId = [], tx_from = [], tx_to = [], amount = 7,
       payload = Some (replicate 1024 0), nonce = 1, timestamp = 0, signature = []\<rparr>"
       "replicate 1024 0"]
  by (simp add: BASE_FEE_def FEE_PER_KB_PAYLOAD_def STAKING_FEE_def)

subsection \<open>Key derivation\<close>

lemma setUint32_be_length: "length (setUint32_be v) = 4"
  by (simp add: setUint32_be_def le_bytes_length)

lemma setUint32_be_value: "be_value (setUint32_be v) = v mod 2 ^ 32"
proof -
  have "be_value (setUint32_be v) = (v mod 2 ^ 32) mod 256 ^ 4"
    unfolding be_value_def setUint32_be_def rev_rev_ident by (rule le_value_le_bytes)
  then show ?thesis by simp
qed

lemma mnemonicToKeyPair_derived:
  assumes "validateMnemonic mnemonic" and "\<forall>bs. length (sha3_256 bs) = 32"
  shows "mnemonicToKeyPair validateMnemonic mnemonicToSeedSync sha3_256 ed_getPublicKey
           mnemonic passphrase accountIndex =
         Inr (derived_keyPair mnemonicToSeedSync sha3_256 ed_getPublicKey
                mnemonic passphrase accountIndex)"
  using assms
  by (simp add: mnemonicToKeyPair_def isValidMnemonic_def combine_arrays_append Let_def
      KeyPair_fromSeed_def KeyPair_fromPrivateKey_def hash_def derived_keyPair_def)

lemma keyPairs_loop_derived:
  assumes "validateMnemonic mnemonic" and "\<forall>bs. length (sha3_256 bs) = 32"
  shows "keyPairs_loop validateMnemonic mnemonicToSeedSync sha3_256 ed_getPublicKey
           mnemonic count passphrase i keyPairs =
         Inr (keyPairs @ map (derived_keyPair mnemonicToSeedSync sha3_256 ed_getPublicKey
                                mnemonic passphrase) [i..count - 1])"
  using assms
proof (induction validateMnemonic mnemonicToSeedSync sha3_256 ed_getPublicKey
         mnemonic count passphrase i keyPairs rule: keyPairs_loop.induct)
  case (1 validateMnemonic mnemonicToSeedSync sha3_256 ed_getPublicKey
          mnemonic count passphrase i keyPairs)
  let ?kp = "derived_keyPair mnemonicToSeedSync sha3_256 ed_getPublicKey mnemonic passphrase"
  show ?case
  proof (cases "i < count")
    case False
    then show ?thesis
      by (subst keyPairs_loop.simps) simp
  next
    case True
    have one: "mnemonicToKeyPair validateMnemonic mnemonicToSeedSync sha3_256 ed_getPublicKey
                 mnemonic passphrase i = Inr (?kp i)"
      using "1.prems" by (rule mnemonicToKeyPair_derived)
    have range: "[i..count - 1] = i # [i + 1..count - 1]"
      using True by (simp add: upto_rec1)
    have "keyPairs_loop validateMnemonic mnemonicToSeedSync sha3_256 ed_getPublicKey
            mnemonic count passphrase (i + 1) (keyPairs @ [?kp i]) =
          Inr ((keyPairs @ [?kp i]) @ map ?kp [i + 1..count - 1])"
      using "1.IH" [OF True one] "1.prems" by blast
    then show ?thesis
      using True one range by (subst keyPairs_loop.simps) simp
  qed
qed

text \<open>
  C5: when the phrase passes validation (and the digest is 32 bytes long, as SHA3-256 is),
  \<^verbatim>\<open>mnemonicToKeyPair\<close> returns the key pair whose private key is the digest of the seed
  of (phrase, passphrase) followed by the 4 bytes of the account index, most significant
  first; that digest is what \<^verbatim>\<open>fromSeed\<close> takes as the private key. The 4 bytes read back
  as the index whenever it is an unsigned 32-bit integer. \<^verbatim>\<open>mnemonicToKeyPairs\<close> returns
  these key pairs for the indices 0 to count - 1, in order.
\<close>

theorem mnemonicToKeyPair_spec:
  assumes "validateMnemonic phrase" and "\<forall>bs. length (sha3_256 bs) = 32"
  shows
    "mnemonicToKeyPair validateMnemonic mnemonicToSeedSync sha3_256 ed_getPublicKey
       phrase passphrase accountIndex =
       KeyPair_fromSeed ed_getPublicKey
         (hash sha3_256 (mnemonicToSeedSync phrase passphrase @ setUint32_be accountIndex))
     \<and> mnemonicToKeyPair validateMnemonic mnemonicToSeedSync sha3_256 ed_getPublicKey
         phrase passphrase accountIndex =
         Inr \<lparr>privateKey =
                hash sha3_256 (mnemonicToSeedSync phrase passphrase @ setUint32_be accountIndex),
              publicKey = ed_getPublicKey
                (hash sha3_256 (mnemonicToSeedSync phrase passphrase @ setUint32_be accountIndex))\<rparr>
     \<and> length (setUint32_be accountIndex) = 4
     \<and> (0 \<le> accountIndex \<and> accountIndex < 2 ^ 32 \<longrightarrow>
          be_value (setUint32_be accountIndex) = accountIndex)
     \<and> mnemonicToKeyPairs validateMnemonic mnemonicToSeedSync sha3_256 ed_getPublicKey
         phrase count passphrase =
         Inr (map (\<lambda>i. \<lparr>privateKey =
                          hash sha3_256 (mnemonicToSeedSync phrase passphrase @ setUint32_be i),
                        publicKey = ed_getPublicKey
                          (hash sha3_256 (mnemonicToSeedSync phrase passphrase @ setUint32_be i))\<rparr>)
                [0..count - 1])"
proof -
  from assms(2) have len: "\<And>bs. length (sha3_256 bs) = 32"
    by blast
  note valid = assms
  let ?kp = "derived_keyPair mnemonicToSeedSync sha3_256 ed_getPublicKey phrase passphrase"
  have kp: "?kp = (\<lambda>i. \<lparr>privateKey =
                          hash sha3_256 (mnemonicToSeedSync phrase passphrase @ setUint32_be i),
                        publicKey = ed_getPublicKey
                          (hash sha3_256 (mnemonicToSeedSync phrase passphrase @ setUint32_be i))\<rparr>)"
    by (simp add: derived_keyPair_def hash_def Let_def fun_eq_iff)
  have one: "mnemonicToKeyPair validateMnemonic mnemonicToSeedSync sha3_256 ed_getPublicKey
       phrase passphrase accountIndex = Inr (?kp accountIndex)"
    using valid by (rule mnemonicToKeyPair_derived)
  have seed: "KeyPair_fromSeed ed_getPublicKey
         (hash sha3_256 (mnemonicToSeedSync phrase passphrase @ setUint32_be accountIndex)) =
       Inr (?kp accountIndex)"
    using len by (simp add: KeyPair_fromSeed_def KeyPair_fromPrivateKey_def hash_def
        derived_keyPair_def Let_def)
  have many: "mnemonicToKeyPairs validateMnemonic mnemonicToSeedSync sha3_256 ed_getPublicKey
         phrase count passphrase = Inr (map ?kp [0..count - 1])"
    unfolding mnemonicToKeyPairs_def
    using valid keyPairs_loop_derived [of validateMnemonic phrase sha3_256 mnemonicToSeedSync
        ed_getPublicKey count passphrase 0 "[]"]
    by simp
  have idx: "0 \<le> accountIndex \<and> accountIndex < 2 ^ 32 \<longrightarrow>
          be_value (setUint32_be accountIndex) = accountIndex"
    by (simp add: setUint32_be_value)
  show ?thesis
    using one seed many idx setUint32_be_length [of accountIndex] unfolding kp by simp
qed

theorem mnemonicToKeyPair_spec_witness:
  "mnemonicToKeyPair (\<lambda>m. m = lit ''ok'') (\<lambda>m p. replicate 64 7)
       (\<lambda>bs. take 32 (rev bs @ replicate 32 0)) (map (\<lambda>b. b + 1)) (lit ''ok'') [] 258 =
     Inr \<lparr>privateKey = [2, 1, 0, 0] @ replicate 28 7, publicKey = [3, 2, 1, 1] @ replicate 28 8\<rparr>
   \<and> be_value (setUint32_be 258) = 258
   \<and> mnemonicToKeyPairs (\<lambda>m. m = lit ''ok'') (\<lambda>m p. replicate 64 7)
       (\<lambda>bs. take 32 (rev bs @ replicate 32 0)) (map (\<lambda>b. b + 1)) (lit ''ok'') 2 [] =
     Inr [\<lparr>privateKey = [0, 0, 0, 0] @ replicate 28 7, publicKey = [1, 1, 1, 1] @ replicate 28 8\<rparr>,
          \<lparr>privateKey = [1, 0, 0, 0] @ replicate 28 7, publicKey = [2, 1, 1, 1] @ replicate 28 8\<rparr>]"
proof -
  have enc: "setUint32_be 258 = [0, 0, 1, 2]" "setUint32_be 0 = [0, 0, 0, 0]"
    "setUint32_be 1 = [0, 0, 0, 1]"
    by (simp_all add: setUint32_be_def eval_nat_numeral)
  have r: "[0..1] = [0, 1::int]"
    by (simp add: upto_rec1)
  have d: "\<forall>bs::bytes. length (take 32 (rev bs @ replicate 32 0)) = 32"
    by auto
  show ?thesis
    using d mnemonicToKeyPair_spec [of "\<lambda>m. m = lit ''ok''" "lit ''ok''"
        "\<lambda>bs. take 32 (rev bs @ replicate 32 0)"
        "\<lambda>m p. replicate 64 7" "map (\<lambda>b. b + 1)" "[]" 258 2]
    by (simp add: enc r hash_def be_value_def KeyPair_fromSeed_def KeyPair_fromPrivateKey_def)
qed

subsection \<open>Signing\<close>




subsection \<open>Builder\<close>

text \<open>
  C8: in every record built by the stake, unstake, proposal and vote constructors the
  fields \<open>to\<close> and \<open>from\<close> are both the public key of the builder's key; Stake and Unstake
  records have no payload; Vote records have amount 0.
\<close>

theorem builder_invariants:
  "tx_to (buildStake builder now so) = tx_from (buildStake builder now so)
   \<and> tx_from (buildStake builder now so) = publicKey (keyPair builder)
   \<and> payload (buildStake builder now so) = None
   \<and> txType (buildStake builder now so) = Stake
   \<and> tx_to (buildUnstake builder now uo) = tx_from (buildUnstake builder now uo)
   \<and> tx_from (buildUnstake builder now uo) = publicKey (keyPair builder)
   \<and> payload (buildUnstake builder now uo) = None
   \<and> txType (buildUnstake builder now uo) = Unstake
   \<and> (\<forall>tx. buildSubmitProposal stringify_proposal builder now po = Inr tx \<longrightarrow>
          tx_to tx = tx_from tx \<and> tx_from tx = publicKey (keyPair builder)
          \<and> txType tx = SubmitProposal)
   \<and> tx_to (buildVote stringify_vote builder now vo) = tx_from (buildVote stringify_vote builder now vo)
   \<and> tx_from (buildVote stringify_vote builder now vo) = publicKey (keyPair builder)
   \<and> amount (buildVote stringify_vote builder now vo) = 0
   \<and> txType (buildVote stringify_vote builder now vo) = Vote"
proof -
  have stake: "tx_to (buildStake builder now so) = tx_from (buildStake builder now so)
     \<and> tx_from (buildStake builder now so) = publicKey (keyPair builder)
     \<and> payload (buildStake builder now so) = None \<and> txType (buildStake builder now so) = Stake"
    by (simp add: buildStake_def)
  have unstake: "tx_to (buildUnstake builder now uo) = tx_from (buildUnstake builder now uo)
     \<and> tx_from (buildUnstake builder now uo) = publicKey (keyPair builder)
     \<and> payload (buildUnstake builder now uo) = None \<and> txType (buildUnstake builder now uo) = Unstake"
    by (simp add: buildUnstake_def)
  have proposal: "\<forall>tx. buildSubmitProposal stringify_proposal builder now po = Inr tx \<longrightarrow>
          tx_to tx = tx_from tx \<and> tx_from tx = publicKey (keyPair builder)
          \<and> txType tx = SubmitProposal"
    by (auto simp: buildSubmitProposal_def Let_def split: sum.splits)
  have vote: "tx_to (buildVote stringify_vote builder now vo) = tx_from (buildVote stringify_vote builder now vo)
     \<and> tx_from (buildVote stringify_vote builder now vo) = publicKey (keyPair builder)
     \<and> amount (buildVote stringify_vote builder now vo) = 0
     \<and> txType (buildVote stringify_vote builder now vo) = Vote"
    by (simp add: buildVote_def Let_def)
  from stake unstake proposal vote show ?thesis
    by blast
qed

theorem builder_invariants_witness:
  "buildSubmitProposal (\<lambda>p. title p @ description p)
     \<lparr>keyPair = \<lparr>privateKey = [3], publicKey = [1, 2]\<rparr>, defaultChainId = lit ''c''\<rparr> 1700000000
     \<lparr>proposal_title = lit ''a'', proposal_description = lit ''b'', proposal_changes = (),
      proposal_deposit = 10, proposal_nonce = 4, proposal_chainId = None,
      proposal_timestamp = Some 5\<rparr> =
   Inr \<lparr>txType = SubmitProposal, chainId = lit ''c'', tx_from = [1, 2], tx_to = [1, 2],
        amount = 10, payload = Some [97, 98], nonce = 4, timestamp = 5,
        signature = replicate 64 0\<rparr>
   \<and> tx_to \<lparr>txType = SubmitProposal, chainId = lit ''c'', tx_from = [1, 2], tx_to = [1, 2],
        amount = 10, payload = Some [97, 98], nonce = 4, timestamp = 5,
        signature = replicate 64 0\<rparr> = [1, 2]"
proof -
  let ?b = "\<lparr>keyPair = \<lparr>privateKey = [3], publicKey = [1, 2]\<rparr>, defaultChainId = lit ''c''\<rparr>"
  let ?o = "\<lparr>proposal_title = lit ''a'', proposal_description = lit ''b'', proposal_changes = (),
      proposal_deposit = 10, proposal_nonce = 4, proposal_chainId = None,
      proposal_timestamp = Some 5\<rparr>"
  let ?tx = "\<lparr>txType = SubmitProposal, chainId = lit ''c'', tx_from = [1, 2], tx_to = [1, 2],
        amount = 10, payload = Some [97, 98], nonce = 4, timestamp = 5,
        signature = replicate 64 0\<rparr>"
  have utf: "TextEncoder_encode (lit ''a'' @ lit ''b'') = [97, 98]"
    by (simp add: TextEncoder_encode_def lit_def scalar_of_unit_def is_high_surrogate_def
        is_low_surrogate_def utf8_of_code_point_def)
  have built: "buildSubmitProposal (\<lambda>p. title p @ description p) ?b 1700000000 ?o = Inr ?tx"
    by (simp add: buildSubmitProposal_def utf validatePayload_def MAX_PAYLOAD_SIZE_def
        nullish_def)
  from builder_invariants [of ?b 1700000000 _ _ "\<lambda>p. title p @ description p" ?o] built
  have "tx_to ?tx = tx_from ?tx \<and> tx_from ?tx = publicKey (keyPair ?b)"
    by blast
  with built show ?thesis
    by simp
qed

subsection \<open>Hexadecimal decoding\<close>

paragraph \<open>Characters\<close>

lemma alnum_value_unat:
  "alnum_value c =
     (if 48 \<le> unat c \<and> unat c \<le> 57 then Some (unat c - 48)
      else if 97 \<le> unat c \<and> unat c \<le> 122 then Some (unat c - 87)
      else if 65 \<le> unat c \<and> unat c \<le> 90 then Some (unat c - 55)
      else None)"
  by (auto simp: alnum_value_def word_le_nat_alt)

lemma is_radix_digit_unat:
  "is_radix_digit R c \<longleftrightarrow>
     (48 \<le> unat c \<and> unat c \<le> 57 \<and> unat c - 48 < R)
     \<or> (97 \<le> unat c \<and> unat c \<le> 122 \<and> unat c - 87 < R)
     \<or> (65 \<le> unat c \<and> unat c \<le> 90 \<and> unat c - 55 < R)"
  by (auto simp: is_radix_digit_def radix_digit_def alnum_value_unat)

lemma is_StrWhiteSpaceChar_unat:
  "is_StrWhiteSpaceChar c \<longleftrightarrow>
     unat c \<in> {9, 10, 11, 12, 13, 32, 160, 5760, 8232, 8233, 8239, 8287, 12288, 65279}
     \<or> (8192 \<le> unat c \<and> unat c \<le> 8202)"
  by (auto simp: is_StrWhiteSpaceChar_def word_le_nat_alt word_unat_eq_iff)

lemma digit_not_space: "is_radix_digit R c \<Longrightarrow> \<not> is_StrWhiteSpaceChar c"
  by (auto simp: is_radix_digit_unat is_StrWhiteSpaceChar_unat)

lemma digit_not_sign: "is_radix_digit R c \<Longrightarrow> c \<noteq> 0x2B \<and> c \<noteq> 0x2D"
  by (auto simp: is_radix_digit_unat)

lemma sign_not_space: "c = 0x2B \<or> c = 0x2D \<Longrightarrow> \<not> is_StrWhiteSpaceChar c"
  by (auto simp: is_StrWhiteSpaceChar_unat)

lemma x_not_hex: "\<not> is_radix_digit 16 0x78" "\<not> is_radix_digit 16 0x58"
  by (simp_all add: is_radix_digit_unat)

lemma zero_is_hex: "is_radix_digit 16 0x30"
  by (simp add: is_radix_digit_unat)

paragraph \<open>parseInt on two characters\<close>

lemma parseInt_pair: "parseInt [c, d] 16 \<noteq> None \<longleftrightarrow> pair_parses c d"
proof -
  consider (ws) "is_StrWhiteSpaceChar c"
    | (sign) "c = 0x2B \<or> c = 0x2D"
    | (hex) "is_radix_digit 16 c"
    | (other) "\<not> is_StrWhiteSpaceChar c" "c \<noteq> 0x2B" "c \<noteq> 0x2D" "\<not> is_radix_digit 16 c"
    by blast
  then show ?thesis
  proof cases
    case ws
    then have nc: "\<not> is_radix_digit 16 c" "c \<noteq> 0x2B" "c \<noteq> 0x2D"
      using digit_not_space sign_not_space by blast+
    show ?thesis
    proof (cases "is_StrWhiteSpaceChar d")
      case True
      with ws have "\<not> is_radix_digit 16 d"
        using digit_not_space by blast
      with ws True nc show ?thesis
        by (simp add: parseInt_def pair_parses_def)
    next
      case False
      show ?thesis
      proof (cases "d = 0x2B \<or> d = 0x2D")
        case True
        then have "\<not> is_radix_digit 16 d"
          using digit_not_sign by blast
        with ws False True nc show ?thesis
          by (auto simp: parseInt_def pair_parses_def)
      next
        case False2: False
        with ws False nc show ?thesis
          by (auto simp: parseInt_def pair_parses_def Let_def)
      qed
    qed
  next
    case sign
    then have nc: "\<not> is_radix_digit 16 c" "\<not> is_StrWhiteSpaceChar c"
      using digit_not_sign sign_not_space by blast+
    with sign show ?thesis
      by (auto simp: parseInt_def pair_parses_def Let_def)
  next
    case hex
    then have nc: "\<not> is_StrWhiteSpaceChar c" "c \<noteq> 0x2B" "c \<noteq> 0x2D"
      using digit_not_sign digit_not_space by blast+
    show ?thesis
    proof (cases "c = 0x30 \<and> (d = 0x78 \<or> d = 0x58)")
      case True
      with hex nc show ?thesis
        by (auto simp: parseInt_def pair_parses_def Let_def)
    next
      case False
      with hex nc show ?thesis
        by (auto simp: parseInt_def pair_parses_def Let_def)
    qed
  next
    case other
    then show ?thesis
      by (auto simp: parseInt_def pair_parses_def Let_def)
  qed
qed


lemma parseInt_pair_error: "decode_pairs s = Inl e \<Longrightarrow> e = TesseraError InvalidAddress"
  by (induction s arbitrary: e rule: decode_pairs.induct)
    (auto split: option.splits sum.splits)

paragraph \<open>The loop of hexToBytes\<close>

lemma hexToBytes_loop_decode:
  "even (length cleanHex) \<Longrightarrow> even i \<Longrightarrow> length bs = length cleanHex div 2 \<Longrightarrow>
   hexToBytes_loop cleanHex i bs =
     (case decode_pairs (drop i cleanHex) of
        Inl e \<Rightarrow> Inl e
      | Inr r \<Rightarrow> Inr (take (i div 2) bs @ r))"
proof (induction cleanHex i bs rule: hexToBytes_loop.induct)
  case (1 cleanHex i bs)
  show ?case
  proof (cases "i < length cleanHex")
    case False
    with "1.prems" show ?thesis
      by (subst hexToBytes_loop.simps) simp
  next
    case True
    with "1.prems" have next_in: "i + 1 < length cleanHex"
      by (metis Suc_eq_plus1 Suc_lessI even_Suc)
    have dr: "drop i cleanHex = cleanHex ! i # cleanHex ! (i + 1) # drop (i + 2) cleanHex"
      using True next_in by (simp add: Cons_nth_drop_Suc)
    have sub: "substring cleanHex i (i + 2) = [cleanHex ! i, cleanHex ! (i + 1)]"
      by (simp add: substring_def dr)
    show ?thesis
    proof (cases "parseInt [cleanHex ! i, cleanHex ! (i + 1)] 16")
      case None
      with True sub dr show ?thesis
        by (subst hexToBytes_loop.simps) simp
    next
      case (Some b)
      have half: "i div 2 < length bs"
        using True "1.prems" by auto
      have ih: "hexToBytes_loop cleanHex (i + 2) (bs[i div 2 := word_of_int b]) =
        (case decode_pairs (drop (i + 2) cleanHex) of
           Inl e \<Rightarrow> Inl e
         | Inr r \<Rightarrow> Inr (take ((i + 2) div 2) (bs[i div 2 := word_of_int b]) @ r))"
        using "1.IH" [OF True] Some sub "1.prems" by simp
      have tk: "take ((i + 2) div 2) (bs[i div 2 := word_of_int b]) =
          take (i div 2) bs @ [word_of_int b]"
        using half by (simp add: take_Suc_conv_app_nth)
      show ?thesis
        using True Some sub dr ih tk
        by (subst hexToBytes_loop.simps) (simp split: sum.splits)
    qed
  qed
qed

lemma hexToBytes_decode:
  "hexToBytes hex =
     (if odd (length (strip_0x hex)) then Inl (TesseraError InvalidAddress)
      else decode_pairs (strip_0x hex))"
proof (cases "odd (length (strip_0x hex))")
  case True
  then show ?thesis
    by (simp add: hexToBytes_def Let_def odd_iff_mod_2_eq_one)
next
  case False
  then have "hexToBytes_loop (strip_0x hex) 0 (replicate (length (strip_0x hex) div 2) 0) =
      (case decode_pairs (drop 0 (strip_0x hex)) of
        Inl e \<Rightarrow> Inl e
      | Inr r \<Rightarrow> Inr (take (0 div 2) (replicate (length (strip_0x hex) div 2) 0) @ r))"
    by (intro hexToBytes_loop_decode) simp_all
  with False show ?thesis
    by (simp add: hexToBytes_def Let_def split: sum.splits)
qed

lemma decode_pairs_fails_iff:
  "even (length s) \<Longrightarrow>
   (\<exists>e. decode_pairs s = Inl e) \<longleftrightarrow>
   (\<exists>k. 2 * k + 1 < length s \<and> \<not> pair_parses (s ! (2 * k)) (s ! (2 * k + 1)))"
proof (induction s rule: decode_pairs.induct)
  case (1 c d rest)
  let ?bad = "\<lambda>s k. 2 * k + 1 < length s \<and> \<not> pair_parses (s ! (2 * k)) (s ! (2 * k + 1))"
  have idx: "(\<exists>k. ?bad (c # d # rest) k) \<longleftrightarrow> \<not> pair_parses c d \<or> (\<exists>k. ?bad rest k)"
  proof
    assume "\<exists>k. ?bad (c # d # rest) k"
    then obtain k where k: "?bad (c # d # rest) k" ..
    show "\<not> pair_parses c d \<or> (\<exists>k. ?bad rest k)"
    proof (cases k)
      case 0
      with k show ?thesis by simp
    next
      case (Suc j)
      with k have "?bad rest j" by simp
      then show ?thesis by blast
    qed
  next
    assume "\<not> pair_parses c d \<or> (\<exists>k. ?bad rest k)"
    then show "\<exists>k. ?bad (c # d # rest) k"
    proof
      assume "\<not> pair_parses c d"
      then have "?bad (c # d # rest) 0" by simp
      then show ?thesis ..
    next
      assume "\<exists>k. ?bad rest k"
      then obtain j where "?bad rest j" ..
      then have "?bad (c # d # rest) (Suc j)" by simp
      then show ?thesis ..
    qed
  qed
  show ?case
  proof (cases "parseInt [c, d] 16")
    case None
    then have "\<not> pair_parses c d"
      using parseInt_pair [of c d] by simp
    with None idx show ?thesis by simp
  next
    case (Some b)
    then have ok: "pair_parses c d"
      using parseInt_pair [of c d] by simp
    from "1.prems" have "even (length rest)" by simp
    from "1.IH" [OF Some this] Some ok idx show ?thesis
      by (auto split: sum.splits)
  qed
next
  case (2 c)
  then show ?case by simp
next
  case 3
  then show ?case by simp
qed


lemma lit_0x: "lit ''0x'' = [0x30, 0x78]"
  by (simp add: lit_def)

text \<open>
  C9, as stated, fails: the input \<^verbatim>\<open>000x\<close> has even length and each of its pairs begins
  with the hexadecimal digit 0, which parses on its own, yet \<^verbatim>\<open>hexToBytes\<close> raises
  \<^verbatim>\<open>InvalidAddress\<close>, because \<^verbatim>\<open>parseInt("0x", 16)\<close> is \<^verbatim>\<open>NaN\<close>.
\<close>

theorem hexToBytes_claim_counterexample:
  "hexToBytes (lit ''000x'') = Inl (TesseraError InvalidAddress)
   \<and> even (length (strip_0x (lit ''000x'')))
   \<and> is_radix_digit 16 (strip_0x (lit ''000x'') ! 0)
   \<and> is_radix_digit 16 (strip_0x (lit ''000x'') ! 2)
   \<and> parseInt [strip_0x (lit ''000x'') ! 0] 16 = Some 0
   \<and> parseInt [strip_0x (lit ''000x'') ! 2] 16 = Some 0"
proof -
  have s: "strip_0x (lit ''000x'') = [0x30, 0x30, 0x30, 0x78]"
    by (simp add: strip_0x_def startsWith_def lit_def)
  have p1: "parseInt [0x30, 0x30] 16 = Some 0"
    by (simp add: parseInt_def is_StrWhiteSpaceChar_def is_radix_digit_def radix_digit_def
        alnum_value_def digits_value_def)
  have p2: "parseInt [0x30, 0x78] 16 = None"
    by (simp add: parseInt_def is_StrWhiteSpaceChar_def)
  have p3: "parseInt [0x30] 16 = Some 0"
    by (simp add: parseInt_def is_StrWhiteSpaceChar_def is_radix_digit_def radix_digit_def
        alnum_value_def digits_value_def)
  show ?thesis
    by (simp add: hexToBytes_decode s p1 p2 p3 zero_is_hex)
qed

text \<open>
  C9, amended: \<^verbatim>\<open>hexToBytes\<close> raises exactly when the input, after an optional \<^verbatim>\<open>0x\<close>
  prefix is removed, has odd length or contains a two-character pair on which
  \<^verbatim>\<open>parseInt(pair, 16)\<close> is \<^verbatim>\<open>NaN\<close>; the error is always \<^verbatim>\<open>InvalidAddress\<close>. A pair
  parses exactly when it begins with a hexadecimal digit and is not \<^verbatim>\<open>0x\<close> or \<^verbatim>\<open>0X\<close>,
  or when it is a white space or sign character followed by a hexadecimal digit. So a
  pair whose second character is not hexadecimal is decoded from its first character
  alone: \<^verbatim>\<open>4z\<close> gives the byte 4.
\<close>

theorem hexToBytes_raises_iff:
  "((\<exists>e. hexToBytes hex = Inl e) \<longleftrightarrow>
      odd (length (strip_0x hex))
      \<or> (\<exists>k. 2 * k + 1 < length (strip_0x hex)
              \<and> parseInt [strip_0x hex ! (2 * k), strip_0x hex ! (2 * k + 1)] 16 = None))
   \<and> (\<forall>e. hexToBytes hex = Inl e \<longrightarrow> e = TesseraError InvalidAddress)
   \<and> (parseInt [c, d] 16 = None \<longleftrightarrow>
        \<not> ((is_radix_digit 16 c \<and> \<not> (c = 0x30 \<and> (d = 0x78 \<or> d = 0x58)))
           \<or> ((is_StrWhiteSpaceChar c \<or> c = 0x2B \<or> c = 0x2D) \<and> is_radix_digit 16 d)))
   \<and> strip_0x hex = (if take 2 hex = lit ''0x'' then drop 2 hex else hex)
   \<and> hexToBytes (lit ''4z'') = Inr [4]"
proof -
  have pair: "parseInt [c, d] 16 = None \<longleftrightarrow> \<not> pair_parses c d" for c d
    using parseInt_pair [of c d] by blast
  have raises: "(\<exists>e. hexToBytes hex = Inl e) \<longleftrightarrow>
      odd (length (strip_0x hex))
      \<or> (\<exists>k. 2 * k + 1 < length (strip_0x hex)
              \<and> parseInt [strip_0x hex ! (2 * k), strip_0x hex ! (2 * k + 1)] 16 = None)"
  proof (cases "odd (length (strip_0x hex))")
    case True
    then show ?thesis by (simp add: hexToBytes_decode)
  next
    case False
    then have "even (length (strip_0x hex))" by simp
    from decode_pairs_fails_iff [OF this] False show ?thesis
      by (simp add: hexToBytes_decode pair)
  qed
  have code: "\<forall>e. hexToBytes hex = Inl e \<longrightarrow> e = TesseraError InvalidAddress"
    using parseInt_pair_error by (auto simp: hexToBytes_decode split: if_splits)
  have strip: "strip_0x hex = (if take 2 hex = lit ''0x'' then drop 2 hex else hex)"
    by (simp add: strip_0x_def startsWith_def lit_0x numeral_2_eq_2)
  have s: "strip_0x (lit ''4z'') = [0x34, 0x7A]"
    by (simp add: strip_0x_def startsWith_def lit_def)
  have p: "parseInt [0x34, 0x7A] 16 = Some 4"
    by (simp add: parseInt_def is_StrWhiteSpaceChar_def is_radix_digit_def radix_digit_def
        alnum_value_def digits_value_def)
  have ex: "hexToBytes (lit ''4z'') = Inr [4]"
    by (simp add: hexToBytes_decode s p)
  from raises code strip ex pair [of c d] show ?thesis
    unfolding pair_parses_def by blast
qed

theorem hexToBytes_raises_iff_witness:
  "hexToBytes (lit ''0xg0'') = Inl (TesseraError InvalidAddress)
   \<and> hexToBytes (lit ''abc'') = Inl (TesseraError InvalidAddress)
   \<and> hexToBytes (lit ''-5 7'') = Inr [251, 7]"
proof -
  have s: "strip_0x (lit ''0xg0'') = [0x67, 0x30]" "strip_0x (lit ''abc'') = [0x61, 0x62, 0x63]"
    "strip_0x (lit ''-5 7'') = [0x2D, 0x35, 0x20, 0x37]"
    by (simp_all add: strip_0x_def startsWith_def lit_def)
  have p: "parseInt [0x2D, 0x35] 16 = Some (- 5)" "parseInt [0x20, 0x37] 16 = Some 7"
    by (simp_all add: parseInt_def is_StrWhiteSpaceChar_def is_radix_digit_def radix_digit_def
        alnum_value_def digits_value_def)
  have odd3: "odd (length (strip_0x (lit ''abc'')))"
    by (simp add: s)
  have "\<exists>e. hexToBytes (lit ''abc'') = Inl e"
    using hexToBytes_raises_iff [of "lit ''abc''" 0 0] odd3 by blast
  then have a: "hexToBytes (lit ''abc'') = Inl (TesseraError InvalidAddress)"
    using hexToBytes_raises_iff [of "lit ''abc''" 0 0] by blast
  have g: "hexToBytes (lit ''0xg0'') = Inl (TesseraError InvalidAddress)"
    by (simp add: hexToBytes_decode s parseInt_def is_StrWhiteSpaceChar_def is_radix_digit_def
        radix_digit_def alnum_value_def)
  have m: "hexToBytes (lit ''-5 7'') = Inr [251, 7]"
    by (simp add: hexToBytes_decode s p)
  from a g m show ?thesis by blast
qed

subsection \<open>Digits\<close>

lemma unat_digit_char:
  "d < 36 \<Longrightarrow> unat (digit_char d) = (if d < 10 then 48 + d else 87 + d)"
proof -
  assume d: "d < 36"
  have "unat (word_of_nat n :: code_unit) = n" if "n < 200" for n
  proof -
    have "unat (word_of_nat n :: code_unit) = n mod 2 ^ LENGTH(16)"
      by (rule unat_of_nat)
    with that show ?thesis by simp
  qed
  with d show ?thesis
    by (simp add: digit_char_def del: of_nat_add of_nat_numeral)
qed

lemma radix_digit_digit_char: "d < R \<Longrightarrow> R \<le> 36 \<Longrightarrow> radix_digit R (digit_char d) = Some d"
  by (auto simp: radix_digit_def alnum_value_unat unat_digit_char)

lemma is_radix_digit_digit_char: "d < R \<Longrightarrow> R \<le> 36 \<Longrightarrow> is_radix_digit R (digit_char d)"
  by (simp add: is_radix_digit_def radix_digit_digit_char)

lemma digits_value_snoc:
  "digits_value R (ds @ [c]) = digits_value R ds * R + the (radix_digit R c)"
  by (simp add: digits_value_def)

lemma radix_string_digits:
  "2 \<le> R \<Longrightarrow> R \<le> 36 \<Longrightarrow>
   radix_string R n \<noteq> [] \<and> list_all (is_radix_digit R) (radix_string R n)
   \<and> digits_value R (radix_string R n) = n"
proof (induction R n rule: radix_string.induct)
  case (1 R n)
  show ?case
  proof (cases "n < R")
    case True
    with "1.prems" show ?thesis
      by (subst (1 2 3) radix_string.simps)
        (simp add: is_radix_digit_digit_char digits_value_def radix_digit_digit_char)
  next
    case False
    with "1.prems" have rec: "\<not> (R < 2 \<or> n < R)"
      by simp
    have m: "n mod R < R"
      using "1.prems" by simp
    from "1.IH" [OF rec "1.prems"] m "1.prems" rec show ?thesis
      by (subst (1 2 3) radix_string.simps)
        (simp add: is_radix_digit_digit_char digits_value_snoc radix_digit_digit_char)
  qed
qed

subsection \<open>Bytes to hexadecimal and back\<close>

lemma byte_bound: "unat (b :: byte) < 256"
proof -
  have "unat b < 2 ^ LENGTH(8)"
    by (rule unsigned_less)
  then show ?thesis by simp
qed

lemma byte_hex:
  "padStart (radix_string 16 (unat (b :: byte))) 2 0x30 =
     [digit_char (unat b div 16), digit_char (unat b mod 16)]"
proof -
  have lt: "unat b < 256"
    by (rule byte_bound)
  show ?thesis
  proof (cases "unat b < 16")
    case True
    then have "radix_string 16 (unat b) = [digit_char (unat b)]"
      by (subst radix_string.simps) simp
    with True show ?thesis
      by (simp add: padStart_def digit_char_def)
  next
    case False
    from lt have "unat b div 16 < 16"
      by simp
    then have "radix_string 16 (unat b div 16) = [digit_char (unat b div 16)]"
      by (subst radix_string.simps) simp
    with False have "radix_string 16 (unat b) =
        [digit_char (unat b div 16), digit_char (unat b mod 16)]"
      by (subst radix_string.simps) simp
    then show ?thesis
      by (simp add: padStart_def)
  qed
qed

lemma bytesToHex_Cons:
  "bytesToHex (b # bs) = digit_char (unat b div 16) # digit_char (unat b mod 16) # bytesToHex bs"
  by (simp add: bytesToHex_def byte_hex)

lemma bytesToHex_Nil: "bytesToHex [] = []"
  by (simp add: bytesToHex_def)

lemma parseInt_hex_pair:
  assumes "a < 16" and "b < 16"
  shows "parseInt [digit_char a, digit_char b] 16 = Some (int (16 * a + b))"
proof -
  have ha: "is_radix_digit 16 (digit_char a)" and hb: "is_radix_digit 16 (digit_char b)"
    using assms by (simp_all add: is_radix_digit_digit_char)
  have na: "\<not> is_StrWhiteSpaceChar (digit_char a)" "digit_char a \<noteq> 0x2B" "digit_char a \<noteq> 0x2D"
    using ha digit_not_space digit_not_sign by blast+
  have nb: "digit_char b \<noteq> 0x78" "digit_char b \<noteq> 0x58"
    using hb x_not_hex by auto
  show ?thesis
    using assms ha hb na nb
    by (simp add: parseInt_def Let_def digits_value_def radix_digit_digit_char)
qed

lemma decode_pairs_bytesToHex: "decode_pairs (bytesToHex bs) = Inr bs"
proof (induction bs)
  case Nil
  show ?case by (simp add: bytesToHex_Nil)
next
  case (Cons b bs)
  have lt: "unat b < 256"
    by (rule byte_bound)
  then have d: "unat b div 16 < 16" "unat b mod 16 < 16"
    by simp_all
  have whole: "(word_of_int (int (16 * (unat b div 16) + unat b mod 16)) :: byte) = b"
    by simp
  show ?case
    using Cons.IH parseInt_hex_pair [OF d] whole
    by (simp add: bytesToHex_Cons del: of_nat_add of_nat_mult)
qed

lemma even_length_bytesToHex: "even (length (bytesToHex bs))"
  by (induction bs) (simp_all add: bytesToHex_Nil bytesToHex_Cons)

lemma strip_0x_bytesToHex: "strip_0x (bytesToHex bs) = bytesToHex bs"
proof (cases bs)
  case Nil
  then show ?thesis
    by (simp add: strip_0x_def bytesToHex_Nil startsWith_def lit_0x)
next
  case (Cons b rest)
  have "unat b < 256"
    by (rule byte_bound)
  then have "unat b mod 16 < 16"
    by simp
  then have "is_radix_digit 16 (digit_char (unat b mod 16))"
    by (simp add: is_radix_digit_digit_char)
  then have "digit_char (unat b mod 16) \<noteq> 0x78"
    using x_not_hex by auto
  with Cons show ?thesis
    by (simp add: strip_0x_def bytesToHex_Cons startsWith_def lit_0x)
qed

lemma hexToBytes_bytesToHex: "hexToBytes (bytesToHex bs) = Inr bs"
  by (simp add: hexToBytes_decode strip_0x_bytesToHex even_length_bytesToHex
      decode_pairs_bytesToHex)

lemma bytesToHex_empty_iff: "bytesToHex bs = [] \<longleftrightarrow> bs = []"
  by (cases bs) (simp_all add: bytesToHex_Nil bytesToHex_Cons)

subsection \<open>Big integers to decimal strings and back\<close>

lemma decimal_digit_unat: "is_radix_digit 10 c \<longleftrightarrow> 48 \<le> unat c \<and> unat c \<le> 57"
  by (auto simp: is_radix_digit_unat)

lemma trim_whitespace_id:
  assumes "s \<noteq> []" and "\<not> is_StrWhiteSpaceChar (hd s)" and "\<not> is_StrWhiteSpaceChar (last s)"
  shows "trim_whitespace s = s"
proof -
  from assms(1,2) have a: "dropWhile is_StrWhiteSpaceChar s = s"
    by (cases s) simp_all
  from assms(1,3) have b: "dropWhile is_StrWhiteSpaceChar (rev s) = rev s"
    by (cases "rev s") (simp_all add: last_rev [symmetric] del: last_rev)
  show ?thesis
    by (simp add: trim_whitespace_def a b)
qed

lemma StringToBigInt_decimal:
  assumes "ds \<noteq> []" and "list_all (is_radix_digit 10) ds"
  shows "StringToBigInt ds = Some (int (digits_value 10 ds))"
proof -
  from assms have h: "is_radix_digit 10 (hd ds)" and l: "is_radix_digit 10 (last ds)"
    by (auto simp: list_all_iff)
  have t: "trim_whitespace ds = ds"
    using assms(1) h l digit_not_space by (intro trim_whitespace_id) blast+
  have second: "length ds \<ge> 2 \<Longrightarrow> is_radix_digit 10 (ds ! 1)"
    using assms(2) by (simp add: list_all_length)
  have np: "\<not> (length ds \<ge> 2 \<and> ds ! 0 = 0x30 \<and> (ds ! 1 = c1 \<or> ds ! 1 = c2))"
    if "\<not> is_radix_digit 10 c1" "\<not> is_radix_digit 10 c2" for c1 c2
    using second that by auto
  have x: "\<not> is_radix_digit 10 0x78" "\<not> is_radix_digit 10 0x58" "\<not> is_radix_digit 10 0x6F"
    "\<not> is_radix_digit 10 0x4F" "\<not> is_radix_digit 10 0x62" "\<not> is_radix_digit 10 0x42"
    by (simp_all add: decimal_digit_unat)
  have sg: "hd ds \<noteq> 0x2B" "hd ds \<noteq> 0x2D"
    using h digit_not_sign by blast+
  have "StringToBigInt ds = map_option int (all_digits_value 10 ds)"
    unfolding StringToBigInt_def Let_def t
    using assms(1) sg np [OF x(1,2)] np [OF x(3,4)] np [OF x(5,6)]
    by (simp only: if_False)
  with assms show ?thesis
    by (simp add: all_digits_value_def)
qed

lemma StringToBigInt_negative:
  assumes "ds \<noteq> []" and "list_all (is_radix_digit 10) ds"
  shows "StringToBigInt (0x2D # ds) = Some (- int (digits_value 10 ds))"
proof -
  from assms have l: "is_radix_digit 10 (last ds)"
    by (auto simp: list_all_iff)
  have m: "\<not> is_StrWhiteSpaceChar 0x2D"
    using sign_not_space by blast
  have t: "trim_whitespace (0x2D # ds) = 0x2D # ds"
    using assms(1) l digit_not_space m by (intro trim_whitespace_id) auto
  show ?thesis
    using assms by (simp add: StringToBigInt_def t all_digits_value_def Let_def)
qed

lemma BigInt_bigint_toString: "BigInt (bigint_toString n) = Inr n"
proof (cases "n < 0")
  case True
  have "radix_string 10 (nat (- n)) \<noteq> [] \<and> list_all (is_radix_digit 10) (radix_string 10 (nat (- n)))
      \<and> digits_value 10 (radix_string 10 (nat (- n))) = nat (- n)"
    by (rule radix_string_digits) simp_all
  with True show ?thesis
    by (simp add: BigInt_def bigint_toString_def StringToBigInt_negative)
next
  case False
  have "radix_string 10 (nat n) \<noteq> [] \<and> list_all (is_radix_digit 10) (radix_string 10 (nat n))
      \<and> digits_value 10 (radix_string 10 (nat n)) = nat n"
    by (rule radix_string_digits) simp_all
  with False show ?thesis
    by (simp add: BigInt_def bigint_toString_def StringToBigInt_decimal)
qed

subsection \<open>Wire form\<close>

lemma txTypeMap_get_own: "txTypeMap_get (txTypeMap_toJson k) = Some (EnumMember k)"
  by (cases k) (simp_all add: txTypeMap_get_def txTypeMap_fromJson_def lit_def)

lemma serializeTransaction_total:
  "serializeTransaction tx = Inr (concat (body_parts tx @ [signature tx]))"
  by (simp add: serializeTransaction_def concatenate_parts_concat)

lemma transactionToJson_total:
  "transactionToJson sha3_256 tx =
     Inr \<lparr>j_tx_type = txTypeMap_toJson (txType tx),
          j_chain_id = chainId tx,
          j_from = bytesToHex (tx_from tx),
          j_to = bytesToHex (tx_to tx),
          j_amount = bigint_toString (amount tx),
          j_payload = (case payload tx of None \<Rightarrow> None | Some bs \<Rightarrow> Some (bytesToHex bs)),
          j_nonce = bigint_toString (nonce tx),
          j_timestamp = bigint_toString (timestamp tx),
          j_signature = bytesToHex (signature tx),
          j_hash = Some (bytesToHex (hash sha3_256 (concat (body_parts tx @ [signature tx])))),
          j_fee = Some (bigint_toString (calculateFee tx))\<rparr>"
  by (simp add: transactionToJson_def calculateHash_def serializeTransaction_total)

lemma roundtrip_general:
  "\<exists>json. transactionToJson sha3_256 tx = Inr json
     \<and> jsonToTransaction json =
         Inr \<lparr>txType = EnumMember (txType tx), chainId = chainId tx, tx_from = tx_from tx,
              tx_to = tx_to tx, amount = amount tx,
              payload = (if payload tx = Some [] then None else payload tx),
              nonce = nonce tx, timestamp = timestamp tx, signature = signature tx\<rparr>"
proof -
  have "jsonToTransaction
     \<lparr>j_tx_type = txTypeMap_toJson (txType tx),
          j_chain_id = chainId tx,
          j_from = bytesToHex (tx_from tx),
          j_to = bytesToHex (tx_to tx),
          j_amount = bigint_toString (amount tx),
          j_payload = (case payload tx of None \<Rightarrow> None | Some bs \<Rightarrow> Some (bytesToHex bs)),
          j_nonce = bigint_toString (nonce tx),
          j_timestamp = bigint_toString (timestamp tx),
          j_signature = bytesToHex (signature tx),
          j_hash = Some (bytesToHex (hash sha3_256 (concat (body_parts tx @ [signature tx])))),
          j_fee = Some (bigint_toString (calculateFee tx))\<rparr> =
      Inr \<lparr>txType = EnumMember (txType tx), chainId = chainId tx, tx_from = tx_from tx,
              tx_to = tx_to tx, amount = amount tx,
              payload = (if payload tx = Some [] then None else payload tx),
              nonce = nonce tx, timestamp = timestamp tx, signature = signature tx\<rparr>"
    by (cases "payload tx")
      (simp_all add: jsonToTransaction_def txTypeMap_get_own nullish_def hexToBytes_bytesToHex
        BigInt_bigint_toString bytesToHex_empty_iff)
  then show ?thesis
    by (simp add: transactionToJson_total)
qed

text \<open>
  A record with a present payload of length zero is what \<^verbatim>\<open>buildTransfer\<close> returns when
  it is given an empty byte array as payload.
\<close>

lemma hexToBytes_valid_hex:
  assumes "isValidHex hex"
  shows "\<exists>bs. hexToBytes hex = Inr bs"
proof -
  let ?s = "strip_0x hex"
  from assms have digits: "list_all (is_radix_digit 16) ?s" and even_len: "even (length ?s)"
    by (simp_all add: isValidHex_def Let_def even_iff_mod_2_eq_zero)
  have "pair_parses (?s ! (2 * k)) (?s ! (2 * k + 1))" if "2 * k + 1 < length ?s" for k
  proof -
    from that digits have "is_radix_digit 16 (?s ! (2 * k))" "is_radix_digit 16 (?s ! (2 * k + 1))"
      by (simp_all add: list_all_length)
    then show ?thesis
      using x_not_hex by (auto simp: pair_parses_def)
  qed
  then have "\<not> (\<exists>e. decode_pairs ?s = Inl e)"
    using decode_pairs_fails_iff [OF even_len] by blast
  then obtain bs where "decode_pairs ?s = Inr bs"
    by (cases "decode_pairs ?s") auto
  with even_len show ?thesis
    by (simp add: hexToBytes_decode)
qed

lemma buildTransfer_empty_array_payload:
  assumes "isValidAddress (transfer_to options)"
    and "transfer_payload options = Some (PayloadBytes [])"
  shows "\<exists>tx. buildTransfer builder now options = Inr tx \<and> payload tx = Some []"
proof -
  from assms(1) have "isValidHex (transfer_to options)"
    by (simp add: isValidAddress_def split: if_splits)
  then obtain bs where "hexToBytes (transfer_to options) = Inr bs"
    using hexToBytes_valid_hex by blast
  with assms show ?thesis
    by (simp add: buildTransfer_def normalizePayload_def validatePayload_def parseAddress_def)
qed

lemma bytesToHex_replicate:
  "bytesToHex (replicate n b) = concat (replicate n (bytesToHex [b]))"
  by (induction n) (simp_all add: bytesToHex_Nil bytesToHex_Cons)

text \<open>
  C2: the claim holds for every record except one with a present payload of length zero.
  \<^verbatim>\<open>transactionToJson\<close> never fails, and \<^verbatim>\<open>jsonToTransaction\<close> of its result returns
  a record with every field as it was when the payload is absent or non-empty; a present
  empty payload is written as the empty string, which \<^verbatim>\<open>jsonToTransaction\<close> reads as an
  absent payload.
\<close>

theorem json_roundtrip_empty_payload:
  "(payload tx = Some [] \<longrightarrow>
      (\<exists>json tx'. transactionToJson sha3_256 tx = Inr json
         \<and> j_payload json = Some []
         \<and> jsonToTransaction json = Inr tx'
         \<and> payload tx' = None
         \<and> tx' = \<lparr>txType = EnumMember (txType tx), chainId = chainId tx, tx_from = tx_from tx,
                   tx_to = tx_to tx, amount = amount tx, payload = None, nonce = nonce tx,
                   timestamp = timestamp tx, signature = signature tx\<rparr>))
   \<and> (payload tx \<noteq> Some [] \<longrightarrow>
      (\<exists>json. transactionToJson sha3_256 tx = Inr json
         \<and> jsonToTransaction json =
             Inr \<lparr>txType = EnumMember (txType tx), chainId = chainId tx, tx_from = tx_from tx,
                  tx_to = tx_to tx, amount = amount tx, payload = payload tx, nonce = nonce tx,
                  timestamp = timestamp tx, signature = signature tx\<rparr>))"
proof -
  obtain json where j: "transactionToJson sha3_256 tx = Inr json"
    and decoded: "jsonToTransaction json =
         Inr \<lparr>txType = EnumMember (txType tx), chainId = chainId tx, tx_from = tx_from tx,
              tx_to = tx_to tx, amount = amount tx,
              payload = (if payload tx = Some [] then None else payload tx),
              nonce = nonce tx, timestamp = timestamp tx, signature = signature tx\<rparr>"
    using roundtrip_general by blast
  have "j_payload json = Some []" if "payload tx = Some []"
    using j that by (auto simp add: transactionToJson_total bytesToHex_Nil)
  with j decoded show ?thesis
    by auto
qed

theorem json_roundtrip_empty_payload_witness:
  "transactionToJson (\<lambda>bs. [])
     \<lparr>txType = Transfer, chainId = lit ''c'', tx_from = replicate 32 1,
      tx_to = replicate 32 0xAB, amount = 5, payload = Some [], nonce = 1, timestamp = 9,
      signature = replicate 64 0xFF\<rparr> =
   Inr \<lparr>j_tx_type = lit ''transfer'', j_chain_id = lit ''c'',
        j_from = concat (replicate 32 (lit ''01'')),
        j_to = concat (replicate 32 (lit ''ab'')), j_amount = lit ''5'', j_payload = Some [],
        j_nonce = lit ''1'', j_timestamp = lit ''9'',
        j_signature = concat (replicate 64 (lit ''ff'')), j_hash = Some [],
        j_fee = Some (lit ''1000'')\<rparr>
   \<and> jsonToTransaction
     \<lparr>j_tx_type = lit ''transfer'', j_chain_id = lit ''c'',
      j_from = concat (replicate 32 (lit ''01'')),
      j_to = concat (replicate 32 (lit ''ab'')), j_amount = lit ''5'', j_payload = Some [],
      j_nonce = lit ''1'', j_timestamp = lit ''9'',
      j_signature = concat (replicate 64 (lit ''ff'')), j_hash = Some [],
      j_fee = Some (lit ''1000'')\<rparr> =
   Inr \<lparr>txType = EnumMember Transfer, chainId = lit ''c'', tx_from = replicate 32 1,
        tx_to = replicate 32 0xAB, amount = 5, payload = None, nonce = 1, timestamp = 9,
        signature = replicate 64 0xFF\<rparr>
   \<and> length (replicate 64 (0xFF :: byte)) = 64
   \<and> (0 :: int) \<le> 5 \<and> (5 :: int) < 2 ^ 64"
proof -
  let ?tx = "\<lparr>txType = Transfer, chainId = lit ''c'', tx_from = replicate 32 1,
      tx_to = replicate 32 0xAB, amount = 5, payload = Some [], nonce = 1, timestamp = 9,
      signature = replicate 64 0xFF\<rparr>"
  let ?json = "\<lparr>j_tx_type = lit ''transfer'', j_chain_id = lit ''c'',
        j_from = concat (replicate 32 (lit ''01'')),
        j_to = concat (replicate 32 (lit ''ab'')), j_amount = lit ''5'', j_payload = Some [],
        j_nonce = lit ''1'', j_timestamp = lit ''9'',
        j_signature = concat (replicate 64 (lit ''ff'')), j_hash = Some [],
        j_fee = Some (lit ''1000'')\<rparr>"
  have dec: "bigint_toString 5 = lit ''5''" "bigint_toString 1 = lit ''1''"
    "bigint_toString 9 = lit ''9''" "bigint_toString 1000 = lit ''1000''"
    by (simp_all add: bigint_toString_def radix_string.simps digit_char_def lit_def)
  have hex1: "bytesToHex [1] = lit ''01''" "bytesToHex [0xAB] = lit ''ab''"
    "bytesToHex [0xFF] = lit ''ff''"
    by (simp_all add: bytesToHex_Cons bytesToHex_Nil digit_char_def lit_def)
  have hex: "bytesToHex (replicate 32 1) = concat (replicate 32 (lit ''01''))"
    "bytesToHex (replicate 32 0xAB) = concat (replicate 32 (lit ''ab''))"
    "bytesToHex (replicate 64 0xFF) = concat (replicate 64 (lit ''ff''))"
    by (simp_all only: bytesToHex_replicate hex1)
  have fee: "calculateFee ?tx = 1000"
    by (simp add: calculateFee_def BASE_FEE_def ceil_kb_def)
  have to: "transactionToJson (\<lambda>bs. []) ?tx = Inr ?json"
    by (simp add: transactionToJson_total dec hex fee hash_def bytesToHex_Nil)
  from json_roundtrip_empty_payload [of ?tx "\<lambda>bs. []"]
  obtain json tx' where "transactionToJson (\<lambda>bs. []) ?tx = Inr json"
    and "jsonToTransaction json = Inr tx'"
    and "tx' = \<lparr>txType = EnumMember (txType ?tx), chainId = chainId ?tx, tx_from = tx_from ?tx,
                   tx_to = tx_to ?tx, amount = amount ?tx, payload = None, nonce = nonce ?tx,
                   timestamp = timestamp ?tx, signature = signature ?tx\<rparr>"
    by auto
  with to show ?thesis
    by simp
qed

text \<open>
  C6: \<^verbatim>\<open>jsonToTransaction\<close> never fails because of \<^verbatim>\<open>tx_type\<close>, and for a string that is
  none of the five known names and not the name of a property of \<^verbatim>\<open>Object.prototype\<close>
  it decodes exactly as it does for \<^verbatim>\<open>transfer\<close>, giving the kind Transfer. For an
  unknown string that names a property of \<^verbatim>\<open>Object.prototype\<close>, such as
  \<^verbatim>\<open>constructor\<close>, the table lookup finds the inherited property, the fallback is not
  taken, and the record returned holds that property in \<^verbatim>\<open>txType\<close> instead of the kind
  Transfer. A returned record has kind Transfer exactly for \<^verbatim>\<open>transfer\<close> and for the
  unknown strings that name no inherited property.
\<close>

theorem jsonToTransaction_kind_lookup:
  "(j_tx_type json \<notin> {lit ''transfer'', lit ''stake'', lit ''unstake'', lit ''submit_proposal'',
                       lit ''vote''}
    \<and> j_tx_type json \<notin> set Object_prototype_properties \<longrightarrow>
      jsonToTransaction json = jsonToTransaction (json\<lparr>j_tx_type := lit ''transfer''\<rparr>))
   \<and> (j_tx_type json \<notin> {lit ''transfer'', lit ''stake'', lit ''unstake'', lit ''submit_proposal'',
                       lit ''vote''}
       \<and> hexToBytes (j_from json) = Inr sender \<and> hexToBytes (j_to json) = Inr recipient
       \<and> BigInt (j_amount json) = Inr amt
       \<and> (j_payload json = None \<and> pl = None \<or> j_payload json = Some [] \<and> pl = None
          \<or> (\<exists>p bs. j_payload json = Some p \<and> p \<noteq> [] \<and> hexToBytes p = Inr bs \<and> pl = Some bs))
       \<and> BigInt (j_nonce json) = Inr n \<and> BigInt (j_timestamp json) = Inr ts
       \<and> hexToBytes (j_signature json) = Inr sg \<longrightarrow>
      jsonToTransaction json =
        Inr \<lparr>txType =
               (if j_tx_type json \<in> set Object_prototype_properties
                then InheritedProperty (j_tx_type json) else EnumMember Transfer),
             chainId = j_chain_id json, tx_from = sender, tx_to = recipient,
             amount = amt, payload = pl, nonce = n, timestamp = ts, signature = sg\<rparr>)
   \<and> (\<forall>tx. jsonToTransaction json = Inr tx \<longrightarrow>
        (txType tx = EnumMember Transfer \<longleftrightarrow>
           j_tx_type json = lit ''transfer''
           \<or> (j_tx_type json \<notin> {lit ''transfer'', lit ''stake'', lit ''unstake'',
                                 lit ''submit_proposal'', lit ''vote''}
              \<and> j_tx_type json \<notin> set Object_prototype_properties)))
   \<and> lit ''constructor'' \<in> set Object_prototype_properties
   \<and> lit ''constructor'' \<notin> {lit ''transfer'', lit ''stake'', lit ''unstake'',
                              lit ''submit_proposal'', lit ''vote''}"
proof -
  let ?known = "{lit ''transfer'', lit ''stake'', lit ''unstake'', lit ''submit_proposal'',
                 lit ''vote''}"
  let ?kind = "nullish (txTypeMap_get (j_tx_type json)) (EnumMember Transfer)"
  have own: "map_of txTypeMap_fromJson s = None \<longleftrightarrow> s \<notin> ?known" for s
    by (simp add: txTypeMap_fromJson_def)
  have unknown: "?kind = (if j_tx_type json \<in> set Object_prototype_properties
                then InheritedProperty (j_tx_type json) else EnumMember Transfer)"
    if "j_tx_type json \<notin> ?known"
    using that own [of "j_tx_type json"] by (simp add: txTypeMap_get_def nullish_def)
  have transfer: "nullish (txTypeMap_get (lit ''transfer'')) (EnumMember Transfer) =
      EnumMember Transfer"
    by (simp add: txTypeMap_get_def txTypeMap_fromJson_def nullish_def)
  have known_kind: "?kind = EnumMember Transfer \<longleftrightarrow> j_tx_type json = lit ''transfer''"
    if "j_tx_type json \<in> ?known"
    using that by (auto simp: txTypeMap_get_def txTypeMap_fromJson_def nullish_def lit_def)
  have kind_iff: "?kind = EnumMember Transfer \<longleftrightarrow>
      j_tx_type json = lit ''transfer''
      \<or> (j_tx_type json \<notin> ?known \<and> j_tx_type json \<notin> set Object_prototype_properties)"
  proof (cases "j_tx_type json \<in> ?known")
    case True
    with known_kind show ?thesis by blast
  next
    case False
    then have "j_tx_type json \<noteq> lit ''transfer''" by blast
    with False unknown [OF False] show ?thesis by simp
  qed
  have same: "jsonToTransaction json = jsonToTransaction (json\<lparr>j_tx_type := lit ''transfer''\<rparr>)"
    if "j_tx_type json \<notin> ?known" and "j_tx_type json \<notin> set Object_prototype_properties"
    using unknown [OF that(1)] that(2) transfer
    by (simp add: jsonToTransaction_def cong: sum.case_cong option.case_cong)
  have decoded: "jsonToTransaction json =
        Inr \<lparr>txType =
               (if j_tx_type json \<in> set Object_prototype_properties
                then InheritedProperty (j_tx_type json) else EnumMember Transfer),
             chainId = j_chain_id json, tx_from = sender, tx_to = recipient,
             amount = amt, payload = pl, nonce = n, timestamp = ts, signature = sg\<rparr>"
    if "j_tx_type json \<notin> ?known"
      and "hexToBytes (j_from json) = Inr sender" and "hexToBytes (j_to json) = Inr recipient"
      and "BigInt (j_amount json) = Inr amt"
      and "j_payload json = None \<and> pl = None \<or> j_payload json = Some [] \<and> pl = None
          \<or> (\<exists>p bs. j_payload json = Some p \<and> p \<noteq> [] \<and> hexToBytes p = Inr bs \<and> pl = Some bs)"
      and "BigInt (j_nonce json) = Inr n" and "BigInt (j_timestamp json) = Inr ts"
      and "hexToBytes (j_signature json) = Inr sg"
    using that(2-) unknown [OF that(1)] by (auto simp: jsonToTransaction_def)
  have only: "txType tx = EnumMember Transfer \<longleftrightarrow>
           j_tx_type json = lit ''transfer''
           \<or> (j_tx_type json \<notin> ?known \<and> j_tx_type json \<notin> set Object_prototype_properties)"
    if "jsonToTransaction json = Inr tx" for tx
  proof -
    from that have "txType tx = ?kind"
      by (auto simp: jsonToTransaction_def Let_def split: sum.splits option.splits if_splits)
    with kind_iff show ?thesis by simp
  qed
  have member: "lit ''constructor'' \<in> set Object_prototype_properties"
    by (simp add: Object_prototype_properties_def)
  have fresh: "lit ''constructor'' \<notin> ?known"
    by (simp add: lit_def)
  from same decoded only member fresh show ?thesis
    by blast
qed

theorem jsonToTransaction_kind_lookup_witness:
  "jsonToTransaction
     \<lparr>j_tx_type = lit ''constructor'', j_chain_id = lit ''c'', j_from = lit ''01'',
      j_to = lit ''0xab'', j_amount = lit ''5'', j_payload = None, j_nonce = lit ''1'',
      j_timestamp = lit ''9'', j_signature = lit ''ff'', j_hash = None, j_fee = None\<rparr> =
   Inr \<lparr>txType = InheritedProperty (lit ''constructor''), chainId = lit ''c'', tx_from = [1],
        tx_to = [0xAB], amount = 5, payload = None, nonce = 1, timestamp = 9,
        signature = [0xFF]\<rparr>
   \<and> jsonToTransaction
     \<lparr>j_tx_type = lit ''burn'', j_chain_id = lit ''c'', j_from = lit ''01'', j_to = lit ''0xab'',
      j_amount = lit ''5'', j_payload = None, j_nonce = lit ''1'', j_timestamp = lit ''9'',
      j_signature = lit ''ff'', j_hash = None, j_fee = None\<rparr> =
   Inr \<lparr>txType = EnumMember Transfer, chainId = lit ''c'', tx_from = [1], tx_to = [0xAB],
        amount = 5, payload = None, nonce = 1, timestamp = 9, signature = [0xFF]\<rparr>"
proof -
  let ?ctor = "\<lparr>j_tx_type = lit ''constructor'', j_chain_id = lit ''c'', j_from = lit ''01'',
      j_to = lit ''0xab'', j_amount = lit ''5'', j_payload = None, j_nonce = lit ''1'',
      j_timestamp = lit ''9'', j_signature = lit ''ff'', j_hash = None, j_fee = None\<rparr>"
  let ?burn = "\<lparr>j_tx_type = lit ''burn'', j_chain_id = lit ''c'', j_from = lit ''01'',
      j_to = lit ''0xab'', j_amount = lit ''5'', j_payload = None, j_nonce = lit ''1'',
      j_timestamp = lit ''9'', j_signature = lit ''ff'', j_hash = None, j_fee = None\<rparr>"
  have unknown: "j_tx_type ?ctor \<notin> {lit ''transfer'', lit ''stake'', lit ''unstake'',
      lit ''submit_proposal'', lit ''vote''}"
    "j_tx_type ?burn \<notin> {lit ''transfer'', lit ''stake'', lit ''unstake'',
      lit ''submit_proposal'', lit ''vote''}"
    by (simp_all add: lit_def)
  have inherited: "j_tx_type ?ctor \<in> set Object_prototype_properties"
    "j_tx_type ?burn \<notin> set Object_prototype_properties"
    by (simp_all add: Object_prototype_properties_def lit_def)
  have hex: "hexToBytes (lit ''01'') = Inr [1]" "hexToBytes (lit ''0xab'') = Inr [0xAB]"
    "hexToBytes (lit ''ff'') = Inr [0xFF]"
    by (simp_all add: hexToBytes_decode strip_0x_def startsWith_def lit_def parseInt_def
        is_StrWhiteSpaceChar_def is_radix_digit_def radix_digit_def alnum_value_def
        digits_value_def)
  have dec: "BigInt (lit ''5'') = Inr 5" "BigInt (lit ''1'') = Inr 1" "BigInt (lit ''9'') = Inr 9"
    by (simp_all add: BigInt_def StringToBigInt_def trim_whitespace_def lit_def
        is_StrWhiteSpaceChar_def all_digits_value_def is_radix_digit_def radix_digit_def
        alnum_value_def digits_value_def)
  have fields: "hexToBytes (j_from ?ctor) = Inr [1]" "hexToBytes (j_to ?ctor) = Inr [0xAB]"
    "BigInt (j_amount ?ctor) = Inr 5" "j_payload ?ctor = None"
    "BigInt (j_nonce ?ctor) = Inr 1" "BigInt (j_timestamp ?ctor) = Inr 9"
    "hexToBytes (j_signature ?ctor) = Inr [0xFF]"
    "hexToBytes (j_from ?burn) = Inr [1]" "hexToBytes (j_to ?burn) = Inr [0xAB]"
    "BigInt (j_amount ?burn) = Inr 5" "j_payload ?burn = None"
    "BigInt (j_nonce ?burn) = Inr 1" "BigInt (j_timestamp ?burn) = Inr 9"
    "hexToBytes (j_signature ?burn) = Inr [0xFF]"
    by (simp_all add: hex dec)
  note at_ctor = jsonToTransaction_kind_lookup [of ?ctor "[1]" "[0xAB]" 5 None 1 9 "[0xFF]"]
  note at_burn = jsonToTransaction_kind_lookup [of ?burn "[1]" "[0xAB]" 5 None 1 9 "[0xFF]"]
  from at_ctor unknown(1) fields(1-7)
  have a: "jsonToTransaction ?ctor =
        Inr \<lparr>txType =
               (if j_tx_type ?ctor \<in> set Object_prototype_properties
                then InheritedProperty (j_tx_type ?ctor) else EnumMember Transfer),
             chainId = j_chain_id ?ctor, tx_from = [1], tx_to = [0xAB],
             amount = 5, payload = None, nonce = 1, timestamp = 9, signature = [0xFF]\<rparr>"
    by blast
  from at_burn unknown(2) fields(8-14)
  have b: "jsonToTransaction ?burn =
        Inr \<lparr>txType =
               (if j_tx_type ?burn \<in> set Object_prototype_properties
                then InheritedProperty (j_tx_type ?burn) else EnumMember Transfer),
             chainId = j_chain_id ?burn, tx_from = [1], tx_to = [0xAB],
             amount = 5, payload = None, nonce = 1, timestamp = 9, signature = [0xFF]\<rparr>"
    by blast
  from a b inherited show ?thesis
    by (simp only: if_True if_False) simp
qed

subsection \<open>Amounts\<close>

lemma split_without_separator: "sep \<notin> set s \<Longrightarrow> split s sep = [s]"
  by (induction s) auto

lemma split_at_separator:
  "sep \<notin> set a \<Longrightarrow> sep \<notin> set b \<Longrightarrow> split (a @ sep # b) sep = [a, b]"
  by (induction a) (auto simp: split_without_separator)

lemma point_not_digit: "\<not> is_radix_digit 10 0x2E"
  by (simp add: decimal_digit_unat)

lemma zero_is_digit: "is_radix_digit 10 0x30"
  by (simp add: decimal_digit_unat)

lemma digits_without_point: "list_all (is_radix_digit 10) s \<Longrightarrow> 0x2E \<notin> set s"
  using point_not_digit by (auto simp: list_all_iff)

lemma slice_prefix: "slice_string s 0 (int n) = take n s"
  by (simp add: slice_string_def Let_def min_def)

lemma BigInt_decimal:
  "ds \<noteq> [] \<Longrightarrow> list_all (is_radix_digit 10) ds \<Longrightarrow> BigInt ds = Inr (int (digits_value 10 ds))"
  by (simp add: BigInt_def StringToBigInt_decimal)

lemma parseAmount_parts:
  assumes "split str 0x2E = [ip] \<and> dp = [] \<or> split str 0x2E = [ip, dp]"
    and "list_all (is_radix_digit 10) ip" and "list_all (is_radix_digit 10) dp"
  shows "parseAmount str = Inr (amount_of_parts ip dp)"
proof -
  let ?i = "if ip = [] then lit ''0'' else ip"
  let ?d = "if length dp > 6 then take 6 dp else dp @ replicate (6 - length dp) 0x30"
  from assms(1) have len: "\<not> length (split str 0x2E) > 2"
    by auto
  from assms(1) have e0: "element_or (split str 0x2E) 0 (lit ''0'') = ?i"
    by (auto simp: element_or_def)
  from assms(1) have e1: "element_or (split str 0x2E) 1 [] = dp"
    by (auto simp: element_or_def)
  have dec: "(if length dp > TOKEN_DECIMALS then slice_string dp 0 (int TOKEN_DECIMALS)
              else padEnd dp TOKEN_DECIMALS 0x30) = ?d"
    using slice_prefix [of dp 6] by (simp add: TOKEN_DECIMALS_def padEnd_def)
  have di: "list_all (is_radix_digit 10) ?i"
    using assms(2) zero_is_digit by (simp add: lit_def)
  have dd: "list_all (is_radix_digit 10) ?d"
    using assms(3) zero_is_digit by (auto simp: list_all_iff dest: in_set_takeD)
  have ne: "?i @ ?d \<noteq> []"
    by (simp add: lit_def)
  have big: "BigInt (?i @ ?d) = Inr (int (digits_value 10 (?i @ ?d)))"
    using ne di dd by (intro BigInt_decimal) simp_all
  have "parseAmount str =
      (case BigInt (?i @ ?d) of
         Inl e \<Rightarrow> Inl e
       | Inr r \<Rightarrow> if r < 0 then Inl (TesseraError InvalidTransaction) else Inr r)"
    unfolding parseAmount_def Let_def e0 e1 dec using len by (simp only: if_False)
  then show ?thesis
    unfolding big by (simp add: amount_of_parts_def)
qed

lemma parseAmount_point:
  "list_all (is_radix_digit 10) ip \<Longrightarrow> list_all (is_radix_digit 10) dp \<Longrightarrow>
   parseAmount (ip @ 0x2E # dp) = Inr (amount_of_parts ip dp)"
  by (rule parseAmount_parts) (simp_all add: split_at_separator digits_without_point)

lemma parseAmount_whole:
  "list_all (is_radix_digit 10) ip \<Longrightarrow> parseAmount ip = Inr (amount_of_parts ip [])"
  by (rule parseAmount_parts) (simp_all add: split_without_separator digits_without_point)

lemma amount_of_parts_truncates: "amount_of_parts ip (take 6 dp) = amount_of_parts ip dp"
  by (simp add: amount_of_parts_def min_def)

lemma digits_or_point_cases:
  assumes "\<forall>c \<in> set s. is_radix_digit 10 c \<or> c = 0x2E"
    and "length (filter (\<lambda>c. c = 0x2E) s) \<le> 1"
  shows "list_all (is_radix_digit 10) s
       \<or> (\<exists>ip dp. s = ip @ 0x2E # dp \<and> list_all (is_radix_digit 10) ip
                  \<and> list_all (is_radix_digit 10) dp)"
proof (cases "0x2E \<in> set s")
  case False
  with assms(1) show ?thesis
    by (auto simp: list_all_iff)
next
  case True
  then obtain ip dp where s: "s = ip @ 0x2E # dp"
    by (auto dest: split_list)
  with assms(2) have "filter (\<lambda>c. c = 0x2E) ip = []" "filter (\<lambda>c. c = 0x2E) dp = []"
    by simp_all
  then have "0x2E \<notin> set ip" "0x2E \<notin> set dp"
    by (auto simp: filter_empty_conv)
  with assms(1) s have "list_all (is_radix_digit 10) ip" "list_all (is_radix_digit 10) dp"
    by (auto simp: list_all_iff)
  with s show ?thesis by blast
qed

paragraph \<open>The string that formatAmount prints\<close>

lemma digits_value_leading_zeros:
  "digits_value 10 (replicate k 0x30 @ ds) = digits_value 10 ds"
proof -
  have z: "radix_digit 10 0x30 = Some 0"
    by (simp add: radix_digit_def alnum_value_def)
  have "foldl (\<lambda>acc c. acc * 10 + the (radix_digit 10 c)) 0 (replicate k 0x30) = 0"
    by (induction k) (simp_all add: z)
  then show ?thesis
    by (simp add: digits_value_def)
qed

lemma strip_trailing_zeros_restore:
  "strip_trailing_zeros s @ replicate (length s - length (strip_trailing_zeros s)) 0x30 = s"
proof -
  have "takeWhile (\<lambda>c. c = 0x30) (rev s) =
        replicate (length (takeWhile (\<lambda>c. c = 0x30) (rev s))) (0x30 :: code_unit)"
    by (rule replicate_length_same [symmetric]) (auto dest: set_takeWhileD)
  moreover have "rev s = takeWhile (\<lambda>c. c = 0x30) (rev s) @ dropWhile (\<lambda>c. c = 0x30) (rev s)"
    by simp
  ultimately have r: "rev s = replicate (length (takeWhile (\<lambda>c. c = 0x30) (rev s))) 0x30
      @ dropWhile (\<lambda>c. c = 0x30) (rev s)"
    by simp
  have l: "length s - length (dropWhile (\<lambda>c. c = 0x30) (rev s)) =
      length (takeWhile (\<lambda>c. c = 0x30) (rev s))"
    by (metis add_diff_cancel_right' length_append length_rev takeWhile_dropWhile_id)
  have "s = rev (rev s)" by simp
  also have "\<dots> = rev (dropWhile (\<lambda>c. c = 0x30) (rev s))
      @ replicate (length (takeWhile (\<lambda>c. c = 0x30) (rev s))) 0x30"
    by (subst r) simp
  finally show ?thesis
    by (simp add: strip_trailing_zeros_def l)
qed

lemma strip_trailing_zeros_subset: "set (strip_trailing_zeros s) \<subseteq> set s"
  by (auto simp: strip_trailing_zeros_def dest: set_dropWhileD)

lemma strip_trailing_zeros_length: "length (strip_trailing_zeros s) \<le> length s"
  by (simp add: strip_trailing_zeros_def length_dropWhile_le [of _ "rev s", simplified])

lemma parseAmount_formatAmount:
  assumes "0 \<le> b"
  shows "parseAmount (formatAmount b TOKEN_DECIMALS) = Inr b"
proof -
  define ds where "ds = radix_string 10 (nat b)"
  define str where "str = padStart ds 7 0x30"
  define ip where "ip = take (length str - 6) str"
  define dp where "dp = drop (length str - 6) str"
  define td where "td = strip_trailing_zeros dp"
  have ds: "ds \<noteq> []" "list_all (is_radix_digit 10) ds" "digits_value 10 ds = nat b"
    using radix_string_digits [of 10 "nat b"] by (simp_all add: ds_def)
  have str_len: "7 \<le> length str"
    by (simp add: str_def padStart_def)
  have str_digits: "list_all (is_radix_digit 10) str"
    using ds(2) zero_is_digit by (auto simp: str_def padStart_def list_all_iff)
  have str_value: "digits_value 10 str = nat b"
    by (simp add: str_def padStart_def digits_value_leading_zeros ds(3))
  have parts: "str = ip @ dp" "length dp = 6" "ip \<noteq> []"
    using str_len by (auto simp: ip_def dp_def)
  have ip_digits: "list_all (is_radix_digit 10) ip" and dp_digits: "list_all (is_radix_digit 10) dp"
    using str_digits parts(1) by simp_all
  have td_digits: "list_all (is_radix_digit 10) td"
    using dp_digits strip_trailing_zeros_subset [of dp] by (auto simp: td_def list_all_iff)
  have td_len: "length td \<le> 6"
    using strip_trailing_zeros_length [of dp] parts(2) by (simp add: td_def)
  have restore: "td @ replicate (6 - length td) 0x30 = dp"
    using strip_trailing_zeros_restore [of dp] parts(2) by (simp add: td_def)
  have s1: "slice_string str 0 (- int 6) = ip"
    using str_len by (simp add: slice_string_def Let_def ip_def nat_diff_distrib')
  have s2: "slice_from str (- int 6) = dp"
    using str_len by (simp add: slice_from_def slice_string_def Let_def dp_def nat_diff_distrib')
  have fmt: "formatAmount b TOKEN_DECIMALS = (if td = [] then ip else ip @ 0x2E # td)"
    using assms parts(3)
    by (simp add: formatAmount_def TOKEN_DECIMALS_def bigint_toString_def Let_def
        ds_def [symmetric] str_def [symmetric] s1 [simplified] s2 [simplified]
        td_def [symmetric] lit_def)
  have amount: "amount_of_parts ip td = b"
  proof -
    have "amount_of_parts ip td = int (digits_value 10 (ip @ td @ replicate (6 - length td) 0x30))"
      using td_len parts(3) by (simp add: amount_of_parts_def)
    also have "\<dots> = int (digits_value 10 str)"
      by (simp only: restore parts(1))
    finally show ?thesis
      using assms by (simp add: str_value)
  qed
  show ?thesis
  proof (cases "td = []")
    case True
    with fmt have "parseAmount (formatAmount b TOKEN_DECIMALS) = Inr (amount_of_parts ip [])"
      using ip_digits by (simp add: parseAmount_whole)
    with True amount show ?thesis by simp
  next
    case False
    with fmt have "parseAmount (formatAmount b TOKEN_DECIMALS) = Inr (amount_of_parts ip td)"
      using ip_digits td_digits by (simp add: parseAmount_point)
    with amount show ?thesis by simp
  qed
qed

text \<open>
  C10: a string of decimal digits with at most one decimal point always parses, to a
  non-negative value; the digits after the sixth decimal place have no influence, so
  \<^verbatim>\<open>parseAmount("1.0000009")\<close> and \<^verbatim>\<open>parseAmount("1.0")\<close> are both 1000000; and
  \<^verbatim>\<open>parseAmount(formatAmount(b))\<close> is \<open>b\<close> for every non-negative \<open>b\<close>.
\<close>

theorem parseAmount_spec:
  "((\<forall>c \<in> set s. is_radix_digit 10 c \<or> c = 0x2E) \<and> length (filter (\<lambda>c. c = 0x2E) s) \<le> 1
      \<longrightarrow> (\<exists>v. parseAmount s = Inr v \<and> 0 \<le> v))
   \<and> (list_all (is_radix_digit 10) ip \<and> list_all (is_radix_digit 10) dp \<longrightarrow>
        parseAmount (ip @ lit ''.'' @ dp) = parseAmount (ip @ lit ''.'' @ take TOKEN_DECIMALS dp))
   \<and> parseAmount (lit ''1.0000009'') = Inr 1000000
   \<and> parseAmount (lit ''1.0'') = Inr 1000000
   \<and> (0 \<le> b \<longrightarrow> parseAmount (formatAmount b TOKEN_DECIMALS) = Inr b)"
proof -
  have never_fails: "\<exists>v. parseAmount s = Inr v \<and> 0 \<le> v"
    if "\<forall>c \<in> set s. is_radix_digit 10 c \<or> c = 0x2E"
      and "length (filter (\<lambda>c. c = 0x2E) s) \<le> 1"
    using digits_or_point_cases [OF that]
    by (auto simp: parseAmount_whole parseAmount_point amount_of_parts_def)
  have truncation: "parseAmount (ip @ lit ''.'' @ dp) =
      parseAmount (ip @ lit ''.'' @ take TOKEN_DECIMALS dp)"
    if "list_all (is_radix_digit 10) ip" and "list_all (is_radix_digit 10) dp"
  proof -
    from that(2) have "list_all (is_radix_digit 10) (take 6 dp)"
      by (auto simp: list_all_iff dest: in_set_takeD)
    with that show ?thesis
      by (simp add: lit_def TOKEN_DECIMALS_def parseAmount_point amount_of_parts_truncates)
  qed
  have d1: "list_all (is_radix_digit 10) [0x31]" "list_all (is_radix_digit 10) [0x30]"
    "list_all (is_radix_digit 10) [0x30, 0x30, 0x30, 0x30, 0x30, 0x30, 0x39]"
    by (simp_all add: decimal_digit_unat)
  have v: "digits_value 10 [0x31, 0x30, 0x30, 0x30, 0x30, 0x30, 0x30] = 1000000"
    by (simp add: digits_value_def radix_digit_def alnum_value_def)
  have ex1: "parseAmount (lit ''1.0000009'') = Inr 1000000"
    using parseAmount_point [OF d1(1) d1(3)] by (simp add: lit_def amount_of_parts_def v)
  have r5: "replicate 5 (0x30 :: code_unit) = [0x30, 0x30, 0x30, 0x30, 0x30]"
    by (simp add: eval_nat_numeral)
  have ex2: "parseAmount (lit ''1.0'') = Inr 1000000"
    using parseAmount_point [OF d1(1) d1(2)]
    by (simp add: lit_def amount_of_parts_def v r5)
  from never_fails truncation ex1 ex2 parseAmount_formatAmount show ?thesis
    by blast
qed


theorem parseAmount_spec_witness:
  "parseAmount (lit ''12.5'') = Inr 12500000
   \<and> parseAmount (lit ''1.0000009'') = parseAmount (lit ''1.000000'')
   \<and> formatAmount 1500000 TOKEN_DECIMALS = lit ''1.5''
   \<and> parseAmount (lit ''1.5'') = Inr 1500000"
proof -
  have d: "list_all (is_radix_digit 10) (lit ''1'')" "list_all (is_radix_digit 10) (lit ''0000009'')"
    "list_all (is_radix_digit 10) (lit ''12'')" "list_all (is_radix_digit 10) (lit ''5'')"
    by (simp_all add: lit_def decimal_digit_unat)
  have s: "\<forall>c \<in> set (lit ''12.5''). is_radix_digit 10 c \<or> c = 0x2E"
    "length (filter (\<lambda>c. c = 0x2E) (lit ''12.5'')) \<le> 1"
    by (simp_all add: lit_def decimal_digit_unat)
  have r5: "replicate 5 (0x30 :: code_unit) = [0x30, 0x30, 0x30, 0x30, 0x30]"
    by (simp add: eval_nat_numeral)
  have v: "parseAmount (lit ''12.5'') = Inr 12500000"
    using parseAmount_point [OF d(3) d(4)]
    by (simp add: lit_def amount_of_parts_def r5 digits_value_def radix_digit_def alnum_value_def)
  have f: "formatAmount 1500000 TOKEN_DECIMALS = lit ''1.5''"
    by (simp add: formatAmount_def TOKEN_DECIMALS_def bigint_toString_def radix_string.simps
        digit_char_def padStart_def slice_string_def slice_from_def strip_trailing_zeros_def
        lit_def Let_def)
  note inst = parseAmount_spec [of "lit ''12.5''" "lit ''1''" "lit ''0000009''" 1500000]
  from inst d have t: "parseAmount (lit ''1'' @ lit ''.'' @ lit ''0000009'') =
      parseAmount (lit ''1'' @ lit ''.'' @ take TOKEN_DECIMALS (lit ''0000009''))"
    by blast
  from inst have "parseAmount (formatAmount 1500000 TOKEN_DECIMALS) = Inr 1500000"
    by simp
  with f have rt: "parseAmount (lit ''1.5'') = Inr 1500000"
    by simp
  from t have "parseAmount (lit ''1.0000009'') = parseAmount (lit ''1.000000'')"
    by (simp add: lit_def TOKEN_DECIMALS_def)
  with v f rt show ?thesis
    by blast
qed

end
